theory Spec2Isabelle
  imports Main
begin

section \<open>Python values, errors and printing\<close>

text \<open>
  The Session of \<^verbatim>\<open>wapi/session.py\<close> is embedded with explicit state passing: every
  method takes the session and returns its result together with the session afterwards.
  An exception is a value \<open>Inl e\<close>; the session returned with it is the one the raise
  leaves behind (Python does not roll back mutations made before a raise).

  The scalar values a JSON metadata field, a lookup argument or a search criterion can
  hold. Floats, booleans and nested containers are not represented.
\<close>

datatype scalar = PyNone | PyInt int | PyStr string

text \<open>A dict with string keys, as the list of its items in insertion order.\<close>

type_synonym metadata = "(string \<times> scalar) list"

datatype error =
    ConfigException string
  | MetadataException string
  | CurveException string
  | ValueError
  | TypeError
  | KeyError
  | AttributeError
  | JSONDecodeError
  | ParsingError
  | NoSectionError string
  | NoOptionError string string
  | AuthFailed string
  | TransportError string

fun is_MetadataException :: "error \<Rightarrow> bool" where
  "is_MetadataException (MetadataException m) = True"
| "is_MetadataException e = False"

fun is_ConfigException :: "error \<Rightarrow> bool" where
  "is_ConfigException (ConfigException m) = True"
| "is_ConfigException e = False"

text \<open>\<^verbatim>\<open>'{}'.format(v)\<close> for an int: its decimal digits.\<close>

fun str_nat :: "nat \<Rightarrow> string" where
  "str_nat n = (if n < 10 then [''0123456789'' ! n]
                else str_nat (n div 10) @ [''0123456789'' ! (n mod 10)])"

declare str_nat.simps [simp del]

definition str_int :: "int \<Rightarrow> string" where
  "str_int i = (if i < 0 then CHR ''-'' # str_nat (nat (- i)) else str_nat (nat i))"

fun format :: "scalar \<Rightarrow> string" where
  "format PyNone = ''None''"
| "format (PyInt i) = str_int i"
| "format (PyStr s) = s"

text \<open>
  \<^verbatim>\<open>int(v)\<close>. On a string: surrounding ASCII whitespace is dropped, then an optional sign
  and decimal digits, where single underscores may separate digits; anything else is a
  \<^verbatim>\<open>ValueError\<close>. \<^verbatim>\<open>int(None)\<close> is a \<^verbatim>\<open>TypeError\<close>.
\<close>

definition is_space :: "char \<Rightarrow> bool" where
  "is_space c = (c \<in> set [CHR '' '', CHR 0x09, CHR 0x0A, CHR 0x0B, CHR 0x0C, CHR 0x0D])"

definition digit_of :: "char \<Rightarrow> nat option" where
  "digit_of = map_of [(CHR ''0'', 0), (CHR ''1'', 1), (CHR ''2'', 2), (CHR ''3'', 3),
     (CHR ''4'', 4), (CHR ''5'', 5), (CHR ''6'', 6), (CHR ''7'', 7), (CHR ''8'', 8),
     (CHR ''9'', 9)]"

fun lstrip :: "string \<Rightarrow> string" where
  "lstrip [] = []"
| "lstrip (c # cs) = (if is_space c then lstrip cs else c # cs)"

definition strip :: "string \<Rightarrow> string" where
  "strip s = rev (lstrip (rev (lstrip s)))"

text \<open>
  \<open>int_digits cs acc after_digit\<close>: the value of the digit string \<open>cs\<close> continuing the
  value \<open>acc\<close>; \<open>after_digit\<close> says that the character before \<open>cs\<close> was a digit (an
  underscore is legal only there, and the literal must end after a digit).
\<close>

fun int_digits :: "string \<Rightarrow> nat \<Rightarrow> bool \<Rightarrow> nat option" where
  "int_digits [] acc after_digit = (if after_digit then Some acc else None)"
| "int_digits (c # cs) acc after_digit =
     (case digit_of c of
        Some d \<Rightarrow> int_digits cs (10 * acc + d) True
      | None \<Rightarrow> if c = CHR ''_'' \<and> after_digit then int_digits cs acc False else None)"

definition int_of_str :: "string \<Rightarrow> int option" where
  "int_of_str s =
     (case strip s of
        [] \<Rightarrow> None
      | c # cs \<Rightarrow>
          if c = CHR ''-'' then map_option (\<lambda>n. - int n) (int_digits cs 0 False)
          else if c = CHR ''+'' then map_option int (int_digits cs 0 False)
          else map_option int (int_digits (c # cs) 0 False))"

fun py_int :: "scalar \<Rightarrow> error + int" where
  "py_int PyNone = Inl TypeError"
| "py_int (PyInt i) = Inr i"
| "py_int (PyStr s) = (case int_of_str s of None \<Rightarrow> Inl ValueError | Some i \<Rightarrow> Inr i)"

section \<open>Curves, requests, responses and the Session\<close>

datatype curve_class = TimeSeriesCurve | TaggedCurve | InstanceCurve | TaggedInstanceCurve

text \<open>
  Modelled from the spec: the curve classes of module \<^verbatim>\<open>curves\<close> are not under src/.
  The spec (sections 3 and 4.3) has a curve constructed from the id, the metadata and a
  back-reference to the owning Session, of one of four variants, with the attribute
  \<^verbatim>\<open>name\<close> taken from the metadata. The back-reference is left out of the record.
\<close>

record curve =
  variant :: curve_class
  curve_id :: scalar
  curve_metadata :: "metadata option"

definition new_curve :: "curve_class \<Rightarrow> scalar \<Rightarrow> metadata option \<Rightarrow> curve" where
  "new_curve cls i md = \<lparr>variant = cls, curve_id = i, curve_metadata = md\<rparr>"

text \<open>The attribute \<^verbatim>\<open>c.name\<close>; \<open>None\<close> when the curve has no such attribute.\<close>

definition curve_name :: "curve \<Rightarrow> scalar option" where
  "curve_name c = (case curve_metadata c of None \<Rightarrow> None | Some md \<Rightarrow> map_of md ''name'')"

text \<open>
  Modelled from the spec: the type tags of module \<^verbatim>\<open>util\<close> are not under src/. The spec
  (section 8, scenario 6) spells the time-series tag \<^verbatim>\<open>TIME_SERIES\<close>; the other three
  are spelled as their names.
\<close>

definition TIME_SERIES :: string where "TIME_SERIES = ''TIME_SERIES''"
definition TAGGED :: string where "TAGGED = ''TAGGED''"
definition INSTANCES :: string where "INSTANCES = ''INSTANCES''"
definition TAGGED_INSTANCES :: string where "TAGGED_INSTANCES = ''TAGGED_INSTANCES''"

definition curve_types :: "(string \<times> curve_class) list" where
  "curve_types =
     [(TIME_SERIES, TimeSeriesCurve),
      (TAGGED, TaggedCurve),
      (INSTANCES, InstanceCurve),
      (TAGGED_INSTANCES, TaggedInstanceCurve)]"

text \<open>\<^verbatim>\<open>self._curve_types[v]\<close>, \<open>None\<close> when \<^verbatim>\<open>v not in self._curve_types\<close>.\<close>

fun curve_types_get :: "scalar \<Rightarrow> curve_class option" where
  "curve_types_get (PyStr t) = map_of curve_types t"
| "curve_types_get v = None"

definition meta_keys :: "string list" where
  "meta_keys = [''id'', ''name'', ''frequency'', ''time_zone'', ''curve_type'']"

text \<open>
  Modelled from the spec: \<^verbatim>\<open>auth.OAuth\<close> is not under src/. The spec (section 3) gives
  the provider the client id, the client secret, the auth urlbase and an internal token
  state; constructing it stores the three arguments.
\<close>

record oauth =
  client_id :: string
  client_secret :: string
  auth_urlbase :: string
  token :: "string option"

definition OAuth :: "string \<Rightarrow> string \<Rightarrow> string \<Rightarrow> oauth" where
  "OAuth cid secret ub =
     \<lparr>client_id = cid, client_secret = secret, auth_urlbase = ub, token = None\<rparr>"

record request =
  req_method :: string
  req_url :: string
  req_data :: "string option"
  req_headers :: "string \<rightharpoonup> string"
  req_auth :: "(string \<times> string) option"

text \<open>
  The parsed body of a response: a metadata record or a sequence of them. In a
  \<open>response\<close>, \<open>json = None\<close> stands for a body that \<^verbatim>\<open>response.json()\<close> cannot decode.
\<close>

datatype json_value = JRecord metadata | JArray "metadata list"

record response =
  status_code :: int
  content :: string
  json :: "json_value option"

text \<open>
  The Session. \<open>sent\<close> is the history of the shared transport \<^verbatim>\<open>self._session\<close>: the
  requests handed to \<^verbatim>\<open>send\<close>, oldest first. \<open>slept\<close> counts the calls of
  \<^verbatim>\<open>time.sleep(RETRY_DELAY)\<close>.
\<close>

record session =
  urlbase :: string
  auth :: "oauth option"
  curve_cache :: "int \<rightharpoonup> curve"
  name_cache :: "scalar \<rightharpoonup> int"
  sent :: "request list"
  slept :: nat

section \<open>The curve factory\<close>

text \<open>The loop over \<^verbatim>\<open>_meta_keys\<close>: the first mandatory key that the metadata lacks.\<close>

fun missing_key :: "string list \<Rightarrow> metadata \<Rightarrow> string option" where
  "missing_key [] md = None"
| "missing_key (key # keys) md =
     (if map_of md key = None then Some key else missing_key keys md)"

definition build_curve :: "metadata \<Rightarrow> session \<Rightarrow> (error + curve) \<times> session" where
  "build_curve md s =
     (case missing_key meta_keys md of
        Some key \<Rightarrow>
          (Inl (MetadataException (''Mandatory key '' @ key @ '' not found in metadata'')), s)
      | None \<Rightarrow>
          (case map_of md ''id'' of
             None \<Rightarrow> (Inl KeyError, s)
           | Some idv \<Rightarrow>
               (case py_int idv of
                  Inl e \<Rightarrow> (Inl e, s)
                | Inr i \<Rightarrow>
                    (case map_of md ''curve_type'' of
                       None \<Rightarrow> (Inl KeyError, s)
                     | Some ct \<Rightarrow>
                         (case curve_types_get ct of
                            Some cls \<Rightarrow>
                              (let c = new_curve cls (PyInt i) (Some md);
                                   s1 = s\<lparr>curve_cache := (curve_cache s)(i \<mapsto> c)\<rparr>
                               in case curve_name c of
                                    None \<Rightarrow> (Inl AttributeError, s1)
                                  | Some nm \<Rightarrow>
                                      (Inr c, s1\<lparr>name_cache := (name_cache s1)(nm \<mapsto> i)\<rparr>))
                          | None \<Rightarrow>
                              (Inl (CurveException
                                 (''Unknown curve type ('' @ format ct @ '')'')), s))))))"

section \<open>Configuration\<close>

text \<open>
  What \<^verbatim>\<open>configparser\<close> holds after reading the configuration source: the options of
  the \<^verbatim>\<open>[DEFAULT]\<close> section and the options of every other section. The grammar of the
  file is outside this development; a source that the parser rejects is \<open>Unparsable\<close>,
  and a path that names no file reads as the empty configuration.

  The parser is created with \<^verbatim>\<open>RawConfigParser({"common": {"urlbase": self.urlbase}})\<close>;
  that argument gives a default to the option named \<^verbatim>\<open>common\<close>, which no call below
  asks for, so it is not part of \<open>cfg_defaults\<close>.
\<close>

record raw_config =
  cfg_defaults :: "string \<rightharpoonup> string"
  cfg_sections :: "string \<rightharpoonup> (string \<rightharpoonup> string)"

datatype config_file = Unparsable | Parsed raw_config

text \<open>\<^verbatim>\<open>config.get(section, option)\<close> without fallback.\<close>

definition config_get :: "raw_config \<Rightarrow> string \<Rightarrow> string \<Rightarrow> error + string" where
  "config_get config section option =
     (case (if section = ''DEFAULT'' then Some Map.empty else cfg_sections config section) of
        None \<Rightarrow> Inl (NoSectionError section)
      | Some sec \<Rightarrow>
          (case sec option of
             Some v \<Rightarrow> Inr v
           | None \<Rightarrow>
               (case cfg_defaults config option of
                  Some v \<Rightarrow> Inr v
                | None \<Rightarrow> Inl (NoOptionError option section))))"

definition read_config_file :: "config_file \<Rightarrow> session \<Rightarrow> (error + unit) \<times> session" where
  "read_config_file config_file s =
     (if auth s \<noteq> None then (Inl (ConfigException ''Session configuration is already done''), s)
      else
        (case config_file of
           Unparsable \<Rightarrow> (Inl ParsingError, s)
         | Parsed config \<Rightarrow>
             (case config_get config ''common'' ''urlbase'' of
                Inl e \<Rightarrow> (Inl e, s)
              | Inr ub \<Rightarrow>
                  (let s1 = s\<lparr>urlbase := ub\<rparr>
                   in case config_get config ''common'' ''auth_type'' of
                        Inl e \<Rightarrow> (Inl e, s1)
                      | Inr auth_type \<Rightarrow>
                          if auth_type = ''OAuth'' then
                            (case config_get config auth_type ''id'' of
                               Inl e \<Rightarrow> (Inl e, s1)
                             | Inr cid \<Rightarrow>
                                 (case config_get config auth_type ''secret'' of
                                    Inl e \<Rightarrow> (Inl e, s1)
                                  | Inr secret \<Rightarrow>
                                      (case config_get config auth_type ''auth_urlbase'' of
                                         Inl e \<Rightarrow> (Inl e, s1)
                                       | Inr aub \<Rightarrow>
                                           (Inr (), s1\<lparr>auth := Some (OAuth cid secret aub)\<rparr>))))
                          else (Inr (), s1)))))"

definition configure ::
  "string \<Rightarrow> string \<Rightarrow> string option \<Rightarrow> session \<Rightarrow> (error + unit) \<times> session" where
  "configure cid secret aub s =
     (if auth s \<noteq> None then (Inl (ConfigException ''Session configuration is already done''), s)
      else
        (let aub1 = (case aub of None \<Rightarrow> ''https://auth.wattsight.com/'' | Some u \<Rightarrow> u)
         in (Inr (), s\<lparr>auth := Some (OAuth cid secret aub1)\<rparr>)))"

text \<open>The fields as the first lines of \<^verbatim>\<open>__init__\<close> set them, and \<^verbatim>\<open>__init__\<close> itself.\<close>

definition fresh_session :: session where
  "fresh_session =
     \<lparr>urlbase = ''https://api.wattsight.com'', auth = None, curve_cache = Map.empty,
      name_cache = Map.empty, sent = [], slept = 0\<rparr>"

definition Session ::
  "string option \<Rightarrow> config_file option \<Rightarrow> string option \<Rightarrow> string option \<Rightarrow> string option
     \<Rightarrow> error + session" where
  "Session ub config_file cid secret aub =
     (let r = (case config_file of
                 Some cf \<Rightarrow> read_config_file cf fresh_session
               | None \<Rightarrow>
                   (case (cid, secret) of
                      (Some i, Some k) \<Rightarrow> configure i k aub fresh_session
                    | _ \<Rightarrow> (Inr (), fresh_session)))
      in case r of
           (Inl e, s1) \<Rightarrow> Inl e
         | (Inr u, s1) \<Rightarrow> Inr (case ub of None \<Rightarrow> s1 | Some b \<Rightarrow> s1\<lparr>urlbase := b\<rparr>))"

section \<open>The request dispatcher\<close>

text \<open>
  What lies outside the file is a parameter of the model: \<^verbatim>\<open>urljoin\<close>, \<^verbatim>\<open>json.dumps\<close>,
  the two operations of the auth provider that \<^verbatim>\<open>data_request\<close> calls (not under src/;
  by the spec, section 4.2 step 4, the first may refresh the token or fail, the second
  computes headers from the outgoing body), and the HTTP transport, which answers a
  request with a response or raises. The number passed to \<open>validate_auth\<close> and \<open>send\<close>
  is the number of requests sent before, so that the outside world can answer one
  attempt differently from the next.
\<close>

record env =
  urljoin :: "string \<Rightarrow> string \<Rightarrow> string"
  json_dumps :: "metadata \<Rightarrow> string"
  validate_auth :: "nat \<Rightarrow> oauth \<Rightarrow> error + oauth"
  get_headers :: "oauth \<Rightarrow> string option \<Rightarrow> (string \<rightharpoonup> string)"
  send :: "nat \<Rightarrow> request \<Rightarrow> error + response"

definition RETRY_COUNT :: int where "RETRY_COUNT = 4"

text \<open>\<^verbatim>\<open>RETRY_DELAY\<close> (0.5 seconds) in milliseconds; \<open>slept\<close> adds the delays up.\<close>

definition RETRY_DELAY :: nat where "RETRY_DELAY = 500"

text \<open>The \<^verbatim>\<open>data\<close> argument: text, or structured data for \<^verbatim>\<open>json.dumps\<close>.\<close>

datatype payload = Text string | Structured metadata

definition retryable :: "response \<Rightarrow> bool" where
  "retryable res =
     ((500 \<le> status_code res \<and> status_code res < 600) \<or> status_code res = 408)"

text \<open>\<^verbatim>\<open>if not urlbase: urlbase = self.urlbase\<close>: \<^verbatim>\<open>None\<close> and the empty string are falsy.\<close>

definition effective_urlbase :: "string option \<Rightarrow> session \<Rightarrow> string" where
  "effective_urlbase ub s =
     (case ub of None \<Rightarrow> urlbase s | Some u \<Rightarrow> if u = [] then urlbase s else u)"

text \<open>
  Lines 167 to 185 of \<^verbatim>\<open>data_request\<close>: the request built for one attempt, and the
  session after the auth provider has been validated.
\<close>

definition build_request ::
  "env \<Rightarrow> string \<Rightarrow> string \<Rightarrow> string \<Rightarrow> payload option \<Rightarrow> string option
     \<Rightarrow> (string \<times> string) option \<Rightarrow> session \<Rightarrow> error + (request \<times> session)" where
  "build_request env req_type ub url data rawdata authval s =
     (let longurl = urljoin env ub url;
          headers0 = (case data of
                        None \<Rightarrow> Map.empty
                      | Some d \<Rightarrow> [''content_type'' \<mapsto> ''application/json'']);
          databytes = (case data of
                         None \<Rightarrow> rawdata
                       | Some (Text t) \<Rightarrow> Some t
                       | Some (Structured j) \<Rightarrow> Some (json_dumps env j))
      in case auth s of
           None \<Rightarrow>
             Inr (\<lparr>req_method = req_type, req_url = longurl, req_data = databytes,
                   req_headers = headers0, req_auth = authval\<rparr>, s)
         | Some a \<Rightarrow>
             (case validate_auth env (length (sent s)) a of
                Inl e \<Rightarrow> Inl e
              | Inr a1 \<Rightarrow>
                  Inr (\<lparr>req_method = req_type, req_url = longurl, req_data = databytes,
                        req_headers = headers0 ++ get_headers env a1 databytes,
                        req_auth = authval\<rparr>,
                       s\<lparr>auth := Some a1\<rparr>)))"

function data_request ::
  "env \<Rightarrow> string \<Rightarrow> string option \<Rightarrow> string \<Rightarrow> payload option \<Rightarrow> string option
     \<Rightarrow> (string \<times> string) option \<Rightarrow> int \<Rightarrow> session \<Rightarrow> (error + response) \<times> session" where
  "data_request env req_type urlbase_arg url data rawdata authval retries s =
     (let ub = effective_urlbase urlbase_arg s
      in case build_request env req_type ub url data rawdata authval s of
           Inl e \<Rightarrow> (Inl e, s)
         | Inr (req, s1) \<Rightarrow>
             (let s2 = s1\<lparr>sent := sent s1 @ [req]\<rparr>
              in case send env (length (sent s1)) req of
                   Inl e \<Rightarrow> (Inl e, s2)
                 | Inr res \<Rightarrow>
                     if retryable res \<and> retries > 0 then
                       data_request env req_type (Some ub) url data rawdata authval (retries - 1)
                         (if RETRY_DELAY > 0 then s2\<lparr>slept := slept s2 + RETRY_DELAY\<rparr> else s2)
                     else (Inr res, s2)))"
  by pat_completeness auto
termination
  by (relation "measure (\<lambda>(env, req_type, ub, url, data, rawdata, authval, retries, s). nat retries)")
     auto

declare data_request.simps [simp del]

section \<open>Response handlers\<close>

text \<open>\<^verbatim>\<open>response.ok\<close>: false for a status in [400,600).\<close>

definition ok :: "response \<Rightarrow> bool" where
  "ok response = (\<not> (400 \<le> status_code response \<and> status_code response < 600))"

text \<open>\<^verbatim>\<open>p in s\<close> on two strings.\<close>

fun starts_with :: "string \<Rightarrow> string \<Rightarrow> bool" where
  "starts_with s [] = True"
| "starts_with [] (p # ps) = False"
| "starts_with (c # cs) (p # ps) = (c = p \<and> starts_with cs ps)"

fun contains_str :: "string \<Rightarrow> string \<Rightarrow> bool" where
  "contains_str [] p = (p = [])"
| "contains_str (c # cs) p = (starts_with (c # cs) p \<or> contains_str cs p)"

text \<open>
  The error \<^verbatim>\<open>_build_curve\<close> raises on an argument that is not a record, before it
  touches the caches. On a list of records no mandatory key is an element, so the first
  one is reported missing. On a string the \<^verbatim>\<open>in\<close> test looks for substrings, and
  indexing the string by \<^verbatim>\<open>'id'\<close> is a \<^verbatim>\<open>TypeError\<close>.
\<close>

definition build_curve_list :: "metadata list \<Rightarrow> error" where
  "build_curve_list mds = MetadataException ''Mandatory key id not found in metadata''"

definition build_curve_str :: "string \<Rightarrow> error" where
  "build_curve_str k =
     (case filter (\<lambda>key. \<not> contains_str k key) meta_keys of
        [] \<Rightarrow> TypeError
      | key # keys \<Rightarrow>
          MetadataException (''Mandatory key '' @ key @ '' not found in metadata''))"

definition handle_single_curve_response ::
  "response \<Rightarrow> session \<Rightarrow> (error + curve) \<times> session" where
  "handle_single_curve_response response s =
     (if \<not> ok response then
        (Inl (MetadataException (''Failed to load curve: '' @ content response)), s)
      else
        (case json response of
           None \<Rightarrow> (Inl JSONDecodeError, s)
         | Some (JRecord md) \<Rightarrow> build_curve md s
         | Some (JArray mds) \<Rightarrow> (Inl (build_curve_list mds), s)))"

text \<open>
  The loop of \<^verbatim>\<open>handle_multi_curve_response\<close>, with \<^verbatim>\<open>result\<close> as accumulator.
  Iterating over a record instead of a list yields its keys, and the first key already
  makes \<^verbatim>\<open>_build_curve\<close> raise.
\<close>

fun build_curves ::
  "metadata list \<Rightarrow> curve list \<Rightarrow> session \<Rightarrow> (error + curve list) \<times> session" where
  "build_curves [] result s = (Inr result, s)"
| "build_curves (md # mds) result s =
     (case build_curve md s of
        (Inl e, s1) \<Rightarrow> (Inl e, s1)
      | (Inr c, s1) \<Rightarrow> build_curves mds (result @ [c]) s1)"

definition handle_multi_curve_response ::
  "response \<Rightarrow> session \<Rightarrow> (error + curve list) \<times> session" where
  "handle_multi_curve_response response s =
     (if \<not> ok response then
        (Inl (MetadataException (''Curve search failed: '' @ content response)), s)
      else
        (case json response of
           None \<Rightarrow> (Inl JSONDecodeError, s)
         | Some (JArray mds) \<Rightarrow> build_curves mds [] s
         | Some (JRecord []) \<Rightarrow> (Inr [], s)
         | Some (JRecord ((k, v) # md)) \<Rightarrow> (Inl (build_curve_str k), s)))"

section \<open>Lookup, search, direct construction, attributes\<close>

text \<open>
  \<^verbatim>\<open>self._curve_cache[v]\<close>, \<open>None\<close> when \<^verbatim>\<open>v not in self._curve_cache\<close>: the keys of
  the cache are the integers \<^verbatim>\<open>_build_curve\<close> stores, so no other value is a key.
\<close>

fun curve_cache_get :: "session \<Rightarrow> scalar \<Rightarrow> curve option" where
  "curve_cache_get s (PyInt i) = curve_cache s i"
| "curve_cache_get s v = None"

text \<open>In \<open>get_curve\<close>, an argument that is not given is \<open>PyNone\<close>.\<close>

definition get_curve :: "env \<Rightarrow> scalar \<Rightarrow> scalar \<Rightarrow> session \<Rightarrow> (error + curve) \<times> session" where
  "get_curve env id_arg name s =
     (if id_arg = PyNone \<and> name = PyNone then
        (Inl (MetadataException ''No curve specified''), s)
      else
        (let id1 = (if id_arg = PyNone then
                      (case name_cache s name of Some i \<Rightarrow> PyInt i | None \<Rightarrow> id_arg)
                    else id_arg)
         in case curve_cache_get s id1 of
              Some c \<Rightarrow> (Inr c, s)
            | None \<Rightarrow>
                (let arg = (if id1 \<noteq> PyNone then ''id='' @ format id1
                            else ''name='' @ format name)
                 in case data_request env ''GET'' (Some (urlbase s)) (''/api/curves/get?'' @ arg)
                           None None None RETRY_COUNT s of
                      (Inl e, s1) \<Rightarrow> (Inl e, s1)
                    | (Inr response, s1) \<Rightarrow> handle_single_curve_response response s1)))"

definition search_terms :: "string list" where
  "search_terms =
     [''query'', ''id'', ''name'', ''commodity'', ''category'', ''area'', ''station'', ''source'',
      ''scenario'', ''unit'', ''time_zone'', ''version'', ''frequency'', ''data_type'',
      ''curve_state'']"

text \<open>
  The value of a search criterion: \<open>Multiple\<close> is a value that has \<^verbatim>\<open>__iter__\<close> and is
  not a string, given by its elements in iteration order; \<open>Single\<close> is any other value.
  The keyword arguments are the list of (key, value) in the order they were passed.
\<close>

datatype criterion = Single scalar | Multiple "scalar list"

text \<open>\<^verbatim>\<open>sep.join(xs)\<close>.\<close>

fun join :: "string \<Rightarrow> string list \<Rightarrow> string" where
  "join sep [] = []"
| "join sep [x] = x"
| "join sep (x # y # ys) = x @ sep @ join sep (y # ys)"

text \<open>The loop of \<^verbatim>\<open>search\<close> over the keyword arguments, with \<^verbatim>\<open>args\<close> as accumulator.\<close>

fun search_args :: "(string \<times> criterion) list \<Rightarrow> string list \<Rightarrow> error + string list" where
  "search_args [] args = Inr args"
| "search_args ((key, val) # kwargs) args =
     (if key \<notin> set search_terms then
        Inl (MetadataException (''Illegal search parameter '' @ key))
      else
        (case val of
           Multiple vs \<Rightarrow> search_args kwargs (args @ map (\<lambda>v. key @ ''='' @ format v) vs)
         | Single v \<Rightarrow> search_args kwargs (args @ [key @ ''='' @ format v])))"

definition search ::
  "env \<Rightarrow> (string \<times> criterion) list \<Rightarrow> session \<Rightarrow> (error + curve list) \<times> session" where
  "search env kwargs s =
     (case search_args kwargs [] of
        Inl e \<Rightarrow> (Inl e, s)
      | Inr args \<Rightarrow>
          (let astr = (if length args \<noteq> 0 then ''?'' @ join ''&'' args else [])
           in case data_request env ''GET'' (Some (urlbase s)) (''/api/curves'' @ astr)
                     None None None RETRY_COUNT s of
                (Inl e, s1) \<Rightarrow> (Inl e, s1)
              | (Inr response, s1) \<Rightarrow> handle_multi_curve_response response s1))"

definition make_curve :: "scalar \<Rightarrow> scalar \<Rightarrow> session \<Rightarrow> (error + curve) \<times> session" where
  "make_curve id_arg curve_type s =
     (case curve_types_get curve_type of
        Some cls \<Rightarrow> (Inr (new_curve cls id_arg None), s)
      | None \<Rightarrow> (Inl (CurveException ''Bad curve type requested''), s))"

definition attributes :: "string list" where
  "attributes =
     [''commodities'', ''categories'', ''areas'', ''stations'', ''sources'', ''scenarios'',
      ''units'', ''time_zones'', ''versions'', ''frequencies'', ''data_types'',
      ''curve_states'', ''curve_types'']"

text \<open>The result \<open>None\<close> is Python's \<^verbatim>\<open>None\<close>, returned on status 204.\<close>

definition get_attribute ::
  "env \<Rightarrow> string \<Rightarrow> session \<Rightarrow> (error + json_value option) \<times> session" where
  "get_attribute env attribute s =
     (if attribute \<notin> set attributes then
        (Inl (MetadataException (''Attribute '' @ attribute @ '' is not valid'')), s)
      else
        (case data_request env ''GET'' (Some (urlbase s)) (''/api/'' @ attribute)
                None None None RETRY_COUNT s of
           (Inl e, s1) \<Rightarrow> (Inl e, s1)
         | (Inr response, s1) \<Rightarrow>
             if status_code response = 200 then
               (case json response of
                  None \<Rightarrow> (Inl JSONDecodeError, s1)
                | Some j \<Rightarrow> (Inr (Some j), s1))
             else if status_code response = 204 then (Inr None, s1)
             else
               (Inl (MetadataException
                  (''Failed loading '' @ attribute @ '': '' @ content response)), s1)))"

section \<open>Sessions over time\<close>

text \<open>
  The calls a client can make on a Session, and the session each leaves behind, whether
  the call returned or raised. (\<^verbatim>\<open>events\<close> only constructs a listener of another
  module and is not among them.)
\<close>

datatype session_op =
    ReadConfigFile config_file
  | Configure string string "string option"
  | GetCurve scalar scalar
  | Search "(string \<times> criterion) list"
  | MakeCurve scalar scalar
  | GetAttribute string
  | BuildCurve metadata
  | DataRequest string "string option" string "payload option" "string option"
      "(string \<times> string) option" int
  | HandleSingle response
  | HandleMulti response

fun perform :: "env \<Rightarrow> session_op \<Rightarrow> session \<Rightarrow> session" where
  "perform env (ReadConfigFile cf) s = snd (read_config_file cf s)"
| "perform env (Configure cid secret aub) s = snd (configure cid secret aub s)"
| "perform env (GetCurve i n) s = snd (get_curve env i n s)"
| "perform env (Search kwargs) s = snd (search env kwargs s)"
| "perform env (MakeCurve i t) s = snd (make_curve i t s)"
| "perform env (GetAttribute a) s = snd (get_attribute env a s)"
| "perform env (BuildCurve md) s = snd (build_curve md s)"
| "perform env (DataRequest rt ub url d rd av n) s = snd (data_request env rt ub url d rd av n s)"
| "perform env (HandleSingle r) s = snd (handle_single_curve_response r s)"
| "perform env (HandleMulti r) s = snd (handle_multi_curve_response r s)"

text \<open>The sessions a sequence of calls goes through, the starting one first.\<close>

fun run :: "env \<Rightarrow> session_op list \<Rightarrow> session \<Rightarrow> session list" where
  "run env [] s = [s]"
| "run env (op # ops) s = s # run env ops (perform env op s)"

text \<open>How often a sequence of \<open>auth\<close> values goes from absent to present.\<close>

fun times_set :: "oauth option list \<Rightarrow> nat" where
  "times_set (None # Some a # xs) = Suc (times_set (Some a # xs))"
| "times_set (x # y # xs) = times_set (y # xs)"
| "times_set xs = 0"

text \<open>Every name in the name cache points to an id that the curve cache holds.\<close>

definition cache_consistent :: "session \<Rightarrow> bool" where
  "cache_consistent s =
     (\<forall>n i. name_cache s n = Some i \<longrightarrow> curve_cache s i \<noteq> None)"

text \<open>The auth provider never fails to validate.\<close>

definition auth_never_fails :: "env \<Rightarrow> bool" where
  "auth_never_fails env = (\<forall>k a. \<exists>a1. validate_auth env k a = Inr a1)"

section \<open>Concrete inputs\<close>

definition oslo_temp :: metadata where
  "oslo_temp =
     [(''id'', PyStr ''42''), (''name'', PyStr ''Oslo Temp''), (''frequency'', PyStr ''H''),
      (''time_zone'', PyStr ''CET''), (''curve_type'', PyStr ''TIME_SERIES'')]"

definition reply :: "int \<Rightarrow> response" where
  "reply st = \<lparr>status_code = st, content = [], json = Some (JArray [])\<rparr>"

text \<open>
  An outside world whose transport answers with the status \<open>f k\<close> on the attempt after
  \<open>k\<close> earlier ones, whose auth provider always validates and adds no header, and whose
  \<open>urljoin\<close> appends the path to the base (as \<^verbatim>\<open>urljoin\<close> does for a base that is a bare
  host and a path that starts with a slash).
\<close>

definition world :: "(nat \<Rightarrow> int) \<Rightarrow> env" where
  "world f =
     \<lparr>urljoin = (\<lambda>base url. base @ url), json_dumps = (\<lambda>j. []),
      validate_auth = (\<lambda>k a. Inr a), get_headers = (\<lambda>a d. Map.empty),
      send = (\<lambda>k req. Inr (reply (f k)))\<rparr>"

text \<open>The record of scenario 6 with an id that is no number.\<close>

definition bad_id :: metadata where
  "bad_id =
     [(''id'', PyStr ''abc''), (''name'', PyStr ''Oslo Temp''), (''frequency'', PyStr ''H''),
      (''time_zone'', PyStr ''CET''), (''curve_type'', PyStr ''TIME_SERIES'')]"

text \<open>The record of scenario 6 without its type tag, and with a tag that is not registered.\<close>

definition no_type :: metadata where
  "no_type =
     [(''id'', PyStr ''42''), (''name'', PyStr ''Oslo Temp''), (''frequency'', PyStr ''H''),
      (''time_zone'', PyStr ''CET'')]"

definition odd_type :: metadata where
  "odd_type =
     [(''id'', PyStr ''42''), (''name'', PyStr ''Oslo Temp''), (''frequency'', PyStr ''H''),
      (''time_zone'', PyStr ''CET''), (''curve_type'', PyStr ''SPLINE'')]"

text \<open>Statuses of a transport that fails three times and then succeeds.\<close>

definition flaky :: "nat \<Rightarrow> int" where
  "flaky k = (if k < 3 then 503 else 200)"

definition get_areas :: request where
  "get_areas =
     \<lparr>req_method = ''GET'', req_url = ''https://api.wattsight.com/api/areas'',
      req_data = None, req_headers = Map.empty, req_auth = None\<rparr>"

section \<open>The query of a search, as specified\<close>

text \<open>
  The pairs of a search in the words of the specification: a criterion whose value is
  iterable and not a string gives one \<^verbatim>\<open>key=value\<close> pair per element, in the order of
  the elements; a scalar value gives a single pair. The query string joins the pairs of
  all criteria with \<^verbatim>\<open>&\<close>.
\<close>

fun spec_pairs :: "string \<times> criterion \<Rightarrow> string list" where
  "spec_pairs (key, Multiple vs) = map (\<lambda>v. key @ ''='' @ format v) vs"
| "spec_pairs (key, Single v) = [key @ ''='' @ format v]"

definition spec_query :: "(string \<times> criterion) list \<Rightarrow> string" where
  "spec_query kwargs = join ''&'' (concat (map spec_pairs kwargs))"

section \<open>More concrete inputs\<close>

text \<open>The search of scenario 4 and the one request it sends from a fresh session.\<close>

definition area_search :: "(string \<times> criterion) list" where
  "area_search = [(''area'', Multiple [PyStr ''NO'', PyStr ''SE''])]"

definition area_request :: request where
  "area_request =
     \<lparr>req_method = ''GET'',
      req_url = ''https://api.wattsight.com/api/curves?area=NO&area=SE'',
      req_data = None, req_headers = Map.empty, req_auth = None\<rparr>"

text \<open>A configuration whose auth type is not OAuth, and one that lacks the urlbase.\<close>

definition basic_config :: raw_config where
  "basic_config =
     \<lparr>cfg_defaults = Map.empty,
      cfg_sections =
        [''common'' \<mapsto> [''urlbase'' \<mapsto> ''https://test.example'', ''auth_type'' \<mapsto> ''Basic'']]\<rparr>"

definition no_urlbase_config :: raw_config where
  "no_urlbase_config =
     \<lparr>cfg_defaults = Map.empty,
      cfg_sections = [''common'' \<mapsto> [''auth_type'' \<mapsto> ''Basic'']]\<rparr>"

text \<open>A session configured through \<open>configure\<close>.\<close>

definition configured :: session where
  "configured = snd (configure ''me'' ''secret'' None fresh_session)"

text \<open>The search of scenario 3, with a criterion outside the allow-list.\<close>

definition foo_search :: "(string \<times> criterion) list" where
  "foo_search = [(''foo'', Single (PyStr ''x''))]"

section \<open>Properties\<close>

lemmas eval_defs = meta_keys_def int_of_str_def strip_def is_space_def digit_of_def
  curve_types_def TIME_SERIES_def TAGGED_def INSTANCES_def TAGGED_INSTANCES_def
  new_curve_def curve_name_def fresh_session_def oslo_temp_def Let_def

lemma missing_key_None: "(missing_key ks md = None) = (\<forall>k\<in>set ks. map_of md k \<noteq> None)"
  by (induction ks) auto

lemma missing_key_Some: "missing_key ks md = Some k \<Longrightarrow> k \<in> set ks \<and> map_of md k = None"
  by (induction ks) (auto split: if_splits)

lemma py_int_error: "py_int v = Inl e \<Longrightarrow> e = ValueError \<or> e = TypeError"
  by (cases v) (auto split: option.splits)

text \<open>
  Claim C4. A metadata record that holds the five mandatory keys, an id that \<^verbatim>\<open>int\<close>
  converts and a registered type tag makes \<open>build_curve\<close> return a curve of the variant
  registered for the tag with the converted id; afterwards the curve cache holds that
  curve at the id and the name cache maps the name to the id. In particular the record
  of scenario 6 gives a time-series curve with id 42, cached at 42 and under the name
  \<^verbatim>\<open>Oslo Temp\<close>.
\<close>

theorem build_curve_registers:
  assumes "\<forall>k\<in>set meta_keys. map_of md k \<noteq> None"
    and "map_of md ''id'' = Some idv" and "py_int idv = Inr i"
    and "map_of md ''curve_type'' = Some ct" and "curve_types_get ct = Some cls"
    and "map_of md ''name'' = Some nm"
  shows "(let c = new_curve cls (PyInt i) (Some md); r = build_curve md s
          in fst r = Inr c \<and> variant c = cls \<and> curve_id c = PyInt i
             \<and> curve_cache (snd r) i = Some c \<and> name_cache (snd r) nm = Some i)
         \<and> (let c = \<lparr>variant = TimeSeriesCurve, curve_id = PyInt 42,
                      curve_metadata = Some oslo_temp\<rparr>;
                 r = build_curve oslo_temp fresh_session
             in fst r = Inr c \<and> curve_cache (snd r) 42 = Some c
                \<and> name_cache (snd r) (PyStr ''Oslo Temp'') = Some 42)"
proof -
  have "missing_key meta_keys md = None"
    using assms(1) by (simp add: missing_key_None)
  then have general: "let c = new_curve cls (PyInt i) (Some md); r = build_curve md s
          in fst r = Inr c \<and> variant c = cls \<and> curve_id c = PyInt i
             \<and> curve_cache (snd r) i = Some c \<and> name_cache (snd r) nm = Some i"
    using assms(2-6) by (simp add: build_curve_def Let_def curve_name_def new_curve_def)
  have example: "let c = \<lparr>variant = TimeSeriesCurve, curve_id = PyInt 42,
                      curve_metadata = Some oslo_temp\<rparr>;
                 r = build_curve oslo_temp fresh_session
             in fst r = Inr c \<and> curve_cache (snd r) 42 = Some c
                \<and> name_cache (snd r) (PyStr ''Oslo Temp'') = Some 42"
    by (simp add: build_curve_def eval_defs)
  from general example show ?thesis by blast
qed

theorem build_curve_registers_witness:
  "missing_key meta_keys oslo_temp = None
   \<and> map_of oslo_temp ''id'' = Some (PyStr ''42'') \<and> py_int (PyStr ''42'') = Inr 42
   \<and> map_of oslo_temp ''curve_type'' = Some (PyStr ''TIME_SERIES'')
   \<and> curve_types_get (PyStr ''TIME_SERIES'') = Some TimeSeriesCurve
   \<and> map_of oslo_temp ''name'' = Some (PyStr ''Oslo Temp'')
   \<and> fst (build_curve oslo_temp fresh_session)
       = Inr (new_curve TimeSeriesCurve (PyInt 42) (Some oslo_temp))
   \<and> name_cache (snd (build_curve oslo_temp fresh_session)) (PyStr ''Oslo Temp'') = Some 42"
proof -
  have h1: "\<forall>k\<in>set meta_keys. map_of oslo_temp k \<noteq> None" by (simp add: eval_defs)
  have h2: "map_of oslo_temp ''id'' = Some (PyStr ''42'')" by (simp add: eval_defs)
  have h3: "py_int (PyStr ''42'') = Inr 42" by (simp add: eval_defs)
  have h4: "map_of oslo_temp ''curve_type'' = Some (PyStr ''TIME_SERIES'')" by (simp add: eval_defs)
  have h5: "curve_types_get (PyStr ''TIME_SERIES'') = Some TimeSeriesCurve" by (simp add: eval_defs)
  have h6: "map_of oslo_temp ''name'' = Some (PyStr ''Oslo Temp'')" by (simp add: eval_defs)
  have h0: "missing_key meta_keys oslo_temp = None" by (simp add: eval_defs)
  show ?thesis
    using h0 h2 h3 h4 h5 h6 build_curve_registers [OF h1 h2 h3 h4 h5 h6, of fresh_session]
    by (simp add: Let_def)
qed

text \<open>
  Claim C5. On a record that lacks a mandatory key, \<open>build_curve\<close> fails with a
  \<open>MetadataException\<close> whose message names a missing key (the key \<^verbatim>\<open>curve_type\<close> when
  that is the one missing). On a record with all mandatory keys, a convertible id and
  a type tag that is not registered, it fails with a \<open>CurveException\<close>. Both times the
  session, and with it both caches, is returned as it was.
\<close>

theorem build_curve_rejects:
  "((\<exists>k\<in>set meta_keys. map_of md k = None) \<longrightarrow>
      (\<exists>k\<in>set meta_keys. map_of md k = None \<and>
         build_curve md s =
           (Inl (MetadataException (''Mandatory key '' @ k @ '' not found in metadata'')), s)))
   \<and> ((\<forall>k\<in>set meta_keys. (map_of md k = None) = (k = ''curve_type'')) \<longrightarrow>
         build_curve md s =
           (Inl (MetadataException ''Mandatory key curve_type not found in metadata''), s))
   \<and> ((\<forall>k\<in>set meta_keys. map_of md k \<noteq> None) \<and> map_of md ''id'' = Some idv
        \<and> py_int idv = Inr i \<and> map_of md ''curve_type'' = Some ct
        \<and> curve_types_get ct = None \<longrightarrow>
         build_curve md s =
           (Inl (CurveException (''Unknown curve type ('' @ format ct @ '')'')), s))"
proof (intro conjI impI)
  assume "\<exists>k\<in>set meta_keys. map_of md k = None"
  then have "missing_key meta_keys md \<noteq> None" by (simp add: missing_key_None)
  then obtain k where k: "missing_key meta_keys md = Some k" by blast
  then have "k \<in> set meta_keys \<and> map_of md k = None" by (rule missing_key_Some)
  moreover from k have "build_curve md s =
      (Inl (MetadataException (''Mandatory key '' @ k @ '' not found in metadata'')), s)"
    by (simp add: build_curve_def)
  ultimately show "\<exists>k\<in>set meta_keys. map_of md k = None \<and>
         build_curve md s =
           (Inl (MetadataException (''Mandatory key '' @ k @ '' not found in metadata'')), s)"
    by blast
next
  assume "\<forall>k\<in>set meta_keys. (map_of md k = None) = (k = ''curve_type'')"
  then have "missing_key meta_keys md = Some ''curve_type''"
    by (simp add: meta_keys_def)
  then show "build_curve md s =
           (Inl (MetadataException ''Mandatory key curve_type not found in metadata''), s)"
    by (simp add: build_curve_def)
next
  assume a: "(\<forall>k\<in>set meta_keys. map_of md k \<noteq> None) \<and> map_of md ''id'' = Some idv
        \<and> py_int idv = Inr i \<and> map_of md ''curve_type'' = Some ct
        \<and> curve_types_get ct = None"
  then have "missing_key meta_keys md = None" by (simp add: missing_key_None)
  with a show "build_curve md s =
           (Inl (CurveException (''Unknown curve type ('' @ format ct @ '')'')), s)"
    by (simp add: build_curve_def)
qed

theorem build_curve_bad_id_counterexample:
  "missing_key meta_keys bad_id = None
   \<and> map_of bad_id ''id'' = Some (PyStr ''abc'')
   \<and> py_int (PyStr ''abc'') = Inl ValueError
   \<and> build_curve bad_id fresh_session = (Inl ValueError, fresh_session)
   \<and> \<not> is_MetadataException ValueError"
  by (simp add: build_curve_def bad_id_def eval_defs)

text \<open>
  Claim C6, as amended. On a record with all mandatory keys whose id \<^verbatim>\<open>int\<close> does not
  convert, \<open>build_curve\<close> fails with the error of the conversion itself, a
  \<open>ValueError\<close> or a \<open>TypeError\<close>, which is not a \<open>MetadataException\<close>; the session, and
  with it both caches, is returned as it was.
\<close>

theorem build_curve_bad_id:
  assumes "\<forall>k\<in>set meta_keys. map_of md k \<noteq> None"
    and "map_of md ''id'' = Some idv" and "py_int idv = Inl e"
  shows "build_curve md s = (Inl e, s) \<and> (e = ValueError \<or> e = TypeError)
         \<and> \<not> is_MetadataException e"
proof -
  have "missing_key meta_keys md = None"
    using assms(1) by (simp add: missing_key_None)
  then have "build_curve md s = (Inl e, s)"
    using assms(2,3) by (simp add: build_curve_def)
  moreover have "e = ValueError \<or> e = TypeError"
    using assms(3) by (rule py_int_error)
  ultimately show ?thesis by auto
qed

lemma build_request_frame:
  assumes "build_request env rt ub url d rd av s = Inr (req, s1)"
  shows "sent s1 = sent s \<and> curve_cache s1 = curve_cache s \<and> name_cache s1 = name_cache s
         \<and> urlbase s1 = urlbase s \<and> slept s1 = slept s
         \<and> (auth s1 = None) = (auth s = None)
         \<and> req_url req = urljoin env ub url \<and> req_method req = rt"
  using assms
  by (auto simp: build_request_def Let_def split: option.splits sum.splits)

lemma build_request_ok:
  assumes "auth s = None \<or> auth_never_fails env"
  shows "\<exists>req s1. build_request env rt ub url d rd av s = Inr (req, s1)"
proof (cases "auth s")
  case None
  then show ?thesis by (simp add: build_request_def Let_def)
next
  case (Some a)
  with assms have "auth_never_fails env" by simp
  then obtain a1 where "validate_auth env (length (sent s)) a = Inr a1"
    unfolding auth_never_fails_def by blast
  with Some show ?thesis by (simp add: build_request_def Let_def)
qed

lemma data_request_retry:
  assumes "build_request env rt (effective_urlbase arg s) url d rd av s = Inr (req, s1)"
    and "send env (length (sent s1)) req = Inr res" and "retryable res" and "0 < n"
  shows "data_request env rt arg url d rd av n s =
         data_request env rt (Some (effective_urlbase arg s)) url d rd av (n - 1)
           (s1\<lparr>sent := sent s1 @ [req], slept := slept s1 + RETRY_DELAY\<rparr>)"
  by (subst data_request.simps) (simp add: assms Let_def RETRY_DELAY_def)

lemma data_request_final:
  assumes "build_request env rt (effective_urlbase arg s) url d rd av s = Inr (req, s1)"
    and "send env (length (sent s1)) req = Inr res" and "\<not> (retryable res \<and> 0 < n)"
  shows "data_request env rt arg url d rd av n s = (Inr res, s1\<lparr>sent := sent s1 @ [req]\<rparr>)"
  using assms(3) by (subst data_request.simps) (auto simp: assms(1,2) Let_def)

lemma data_request_returns:
  assumes "auth s = None \<or> auth_never_fails env" and "\<forall>k q. \<exists>r. send env k q = Inr r"
  shows "\<exists>r. fst (data_request env rt arg url d rd av n s) = Inr r"
  using assms
proof (induction env rt arg url d rd av n s rule: data_request.induct)
  case (1 env rt arg url d rd av n s)
  let ?ub = "effective_urlbase arg s"
  from "1.prems"(1) obtain req s1
    where b: "build_request env rt ?ub url d rd av s = Inr (req, s1)"
    using build_request_ok by blast
  from "1.prems"(2) obtain res where r: "send env (length (sent s1)) req = Inr res"
    by blast
  show ?case
  proof (cases "retryable res \<and> 0 < n")
    case True
    let ?s2 = "s1\<lparr>sent := sent s1 @ [req]\<rparr>"
    let ?s3 = "if 0 < RETRY_DELAY then ?s2\<lparr>slept := slept ?s2 + RETRY_DELAY\<rparr> else ?s2"
    have "auth ?s3 = None \<or> auth_never_fails env"
      using "1.prems"(1) build_request_frame [OF b] by auto
    then have "\<exists>r. fst (data_request env rt (Some ?ub) url d rd av (n - 1) ?s3) = Inr r"
      using "1.IH" [OF refl b refl refl r True] "1.prems"(2) by blast
    moreover have "data_request env rt arg url d rd av n s =
        data_request env rt (Some ?ub) url d rd av (n - 1) ?s3"
      using data_request_retry [OF b r] True by (simp add: RETRY_DELAY_def)
    ultimately show ?thesis by simp
  next
    case False
    then show ?thesis using data_request_final [OF b r] by simp
  qed
qed

text \<open>One retry: the first attempt is answered with a retryable status and budget is left.\<close>

lemma data_request_step:
  assumes "auth s = None \<or> auth_never_fails env"
    and "\<forall>q. \<exists>r. send env (length (sent s)) q = Inr r \<and> retryable r"
    and "0 < n"
  shows "\<exists>ub s1. data_request env rt arg url d rd av n s =
                  data_request env rt ub url d rd av (n - 1) s1
               \<and> length (sent s1) = Suc (length (sent s))
               \<and> (auth s1 = None \<or> auth_never_fails env)"
proof -
  let ?ub = "effective_urlbase arg s"
  from assms(1) obtain req s1
    where b: "build_request env rt ?ub url d rd av s = Inr (req, s1)"
    using build_request_ok by blast
  note f = build_request_frame [OF b]
  from assms(2) f obtain res
    where r: "send env (length (sent s1)) req = Inr res" and rt: "retryable res"
    by auto
  let ?s3 = "s1\<lparr>sent := sent s1 @ [req], slept := slept s1 + RETRY_DELAY\<rparr>"
  have "data_request env rt arg url d rd av n s =
        data_request env rt (Some ?ub) url d rd av (n - 1) ?s3"
    by (rule data_request_retry [OF b r rt assms(3)])
  moreover have "length (sent ?s3) = Suc (length (sent s))" using f by simp
  moreover have "auth ?s3 = None \<or> auth_never_fails env" using assms(1) f by auto
  ultimately show ?thesis by blast
qed

text \<open>The last attempt: its answer is not retryable, or no budget is left.\<close>

lemma data_request_last:
  assumes "auth s = None \<or> auth_never_fails env"
    and "\<forall>q. \<exists>r. send env (length (sent s)) q = Inr r \<and> (retryable r \<longrightarrow> n \<le> 0)"
  shows "\<exists>r s1. data_request env rt arg url d rd av n s = (Inr r, s1)
               \<and> length (sent s1) = Suc (length (sent s))
               \<and> send env (length (sent s)) (last (sent s1)) = Inr r"
proof -
  let ?ub = "effective_urlbase arg s"
  from assms(1) obtain req s1
    where b: "build_request env rt ?ub url d rd av s = Inr (req, s1)"
    using build_request_ok by blast
  note f = build_request_frame [OF b]
  from assms(2) f obtain res
    where r: "send env (length (sent s1)) req = Inr res" and rt: "retryable res \<longrightarrow> n \<le> 0"
    by auto
  from rt have "\<not> (retryable res \<and> 0 < n)" by auto
  then have "data_request env rt arg url d rd av n s = (Inr res, s1\<lparr>sent := sent s1 @ [req]\<rparr>)"
    by (rule data_request_final [OF b r])
  then show ?thesis using f r by auto
qed

text \<open>
  The first \<open>m\<close> attempts are answered with a retryable status and the budget covers
  them; the next attempt is the last one.
\<close>

lemma data_request_attempts:
  assumes "auth s = None \<or> auth_never_fails env"
    and "int m \<le> n"
    and "\<forall>k<m. \<forall>q. \<exists>r. send env (length (sent s) + k) q = Inr r \<and> retryable r"
    and "\<forall>q. \<exists>r. send env (length (sent s) + m) q = Inr r \<and> (retryable r \<longrightarrow> n \<le> int m)"
  shows "\<exists>r s1. data_request env rt arg url d rd av n s = (Inr r, s1)
               \<and> length (sent s1) = length (sent s) + m + 1
               \<and> send env (length (sent s) + m) (last (sent s1)) = Inr r"
  using assms
proof (induction m arbitrary: s arg n)
  case 0
  have "\<forall>q. \<exists>r. send env (length (sent s)) q = Inr r \<and> (retryable r \<longrightarrow> n \<le> 0)"
    using "0.prems"(4) by simp
  from data_request_last [OF "0.prems"(1) this, of rt arg url d rd av]
  show ?case by simp
next
  case (Suc m)
  have pos: "0 < n" using Suc.prems(2) by simp
  have "\<forall>q. \<exists>r. send env (length (sent s)) q = Inr r \<and> retryable r"
    using Suc.prems(3) by (metis add.right_neutral zero_less_Suc)
  from data_request_step [OF Suc.prems(1) this pos, of rt arg url d rd av]
  obtain ub s1 where st: "data_request env rt arg url d rd av n s =
        data_request env rt ub url d rd av (n - 1) s1"
    and len: "length (sent s1) = Suc (length (sent s))"
    and au: "auth s1 = None \<or> auth_never_fails env"
    by auto
  have a2: "int m \<le> n - 1" using Suc.prems(2) by simp
  have a3: "\<forall>k<m. \<forall>q. \<exists>r. send env (length (sent s1) + k) q = Inr r \<and> retryable r"
  proof (intro allI impI)
    fix k q assume "k < m"
    then have "Suc k < Suc m" by simp
    with Suc.prems(3) have "\<exists>r. send env (length (sent s) + Suc k) q = Inr r \<and> retryable r"
      by blast
    then show "\<exists>r. send env (length (sent s1) + k) q = Inr r \<and> retryable r"
      by (simp add: len)
  qed
  have a4: "\<forall>q. \<exists>r. send env (length (sent s1) + m) q = Inr r
              \<and> (retryable r \<longrightarrow> n - 1 \<le> int m)"
  proof
    fix q
    from Suc.prems(4) obtain r where "send env (length (sent s) + Suc m) q = Inr r"
      "retryable r \<longrightarrow> n \<le> int (Suc m)" by blast
    then show "\<exists>r. send env (length (sent s1) + m) q = Inr r
              \<and> (retryable r \<longrightarrow> n - 1 \<le> int m)"
      by (auto simp: len)
  qed
  from Suc.IH [OF au a2 a3 a4, of ub] st len show ?case by simp
qed

lemma retryable_503: "status_code r = 503 \<Longrightarrow> retryable r"
  by (simp add: retryable_def)

lemma not_retryable_200: "status_code r = 200 \<Longrightarrow> \<not> retryable r"
  by (simp add: retryable_def)

text \<open>
  Claim C2. With a retry budget \<open>n \<ge> 0\<close> and a transport that answers every attempt
  made with a status in [500,600) or 408, \<open>data_request\<close> hands exactly \<open>n + 1\<close> requests
  to the transport and returns the answer to the last one. When the transport answers
  503 three times and 200 the fourth time, the budget 4 returns the 200 response after
  exactly 4 requests, and the budget 2 returns the third 503 after exactly 3 requests.
  (The auth provider, where the session has one, is taken to validate.)
\<close>

theorem data_request_retry_budget:
  assumes "auth s = None \<or> auth_never_fails env"
  shows "(0 \<le> n \<and> (\<forall>k\<le>nat n. \<forall>q. \<exists>r. send env (length (sent s) + k) q = Inr r \<and> retryable r)
          \<longrightarrow> (\<exists>r s1. data_request env rt arg url d rd av n s = (Inr r, s1)
                 \<and> length (sent s1) = length (sent s) + nat n + 1
                 \<and> retryable r
                 \<and> send env (length (sent s) + nat n) (last (sent s1)) = Inr r))
       \<and> ((\<forall>k<3. \<forall>q. \<exists>r. send env (length (sent s) + k) q = Inr r \<and> status_code r = 503)
          \<and> (\<forall>q. \<exists>r. send env (length (sent s) + 3) q = Inr r \<and> status_code r = 200)
          \<longrightarrow> (\<exists>r s1. data_request env rt arg url d rd av 4 s = (Inr r, s1)
                 \<and> status_code r = 200
                 \<and> length (sent s1) = length (sent s) + 4
                 \<and> send env (length (sent s) + 3) (last (sent s1)) = Inr r)
            \<and> (\<exists>r s1. data_request env rt arg url d rd av 2 s = (Inr r, s1)
                 \<and> status_code r = 503
                 \<and> length (sent s1) = length (sent s) + 3
                 \<and> send env (length (sent s) + 2) (last (sent s1)) = Inr r))"
proof (intro conjI impI)
  assume h: "0 \<le> n \<and>
    (\<forall>k\<le>nat n. \<forall>q. \<exists>r. send env (length (sent s) + k) q = Inr r \<and> retryable r)"
  let ?m = "nat n"
  have m: "int ?m \<le> n" using h by simp
  have a3: "\<forall>k<?m. \<forall>q. \<exists>r. send env (length (sent s) + k) q = Inr r \<and> retryable r"
    using h by simp
  have a4: "\<forall>q. \<exists>r. send env (length (sent s) + ?m) q = Inr r \<and> (retryable r \<longrightarrow> n \<le> int ?m)"
    using h by auto
  from data_request_attempts [OF assms m a3 a4, of rt arg url d rd av]
  obtain r s1 where res: "data_request env rt arg url d rd av n s = (Inr r, s1)"
    "length (sent s1) = length (sent s) + ?m + 1"
    "send env (length (sent s) + ?m) (last (sent s1)) = Inr r" by blast
  from h obtain r' where "send env (length (sent s) + ?m) (last (sent s1)) = Inr r'"
    "retryable r'" by blast
  with res(3) have "retryable r" by simp
  with res show "\<exists>r s1. data_request env rt arg url d rd av n s = (Inr r, s1)
                 \<and> length (sent s1) = length (sent s) + nat n + 1
                 \<and> retryable r
                 \<and> send env (length (sent s) + nat n) (last (sent s1)) = Inr r"
    by blast
next
  assume h: "(\<forall>k<3. \<forall>q. \<exists>r. send env (length (sent s) + k) q = Inr r \<and> status_code r = 503)
          \<and> (\<forall>q. \<exists>r. send env (length (sent s) + 3) q = Inr r \<and> status_code r = 200)"
  have a3: "\<forall>k<3. \<forall>q. \<exists>r. send env (length (sent s) + k) q = Inr r \<and> retryable r"
    using h retryable_503 by blast
  have a4: "\<forall>q. \<exists>r. send env (length (sent s) + 3) q = Inr r \<and> (retryable r \<longrightarrow> 4 \<le> int 3)"
    using h not_retryable_200 by blast
  from data_request_attempts [OF assms _ a3 a4, of rt arg url d rd av]
  obtain r s1 where res: "data_request env rt arg url d rd av 4 s = (Inr r, s1)"
    "length (sent s1) = length (sent s) + 3 + 1"
    "send env (length (sent s) + 3) (last (sent s1)) = Inr r" by auto
  from h obtain r' where "send env (length (sent s) + 3) (last (sent s1)) = Inr r'"
    "status_code r' = 200" by blast
  with res(3) have "status_code r = 200" by simp
  with res show "\<exists>r s1. data_request env rt arg url d rd av 4 s = (Inr r, s1)
                 \<and> status_code r = 200
                 \<and> length (sent s1) = length (sent s) + 4
                 \<and> send env (length (sent s) + 3) (last (sent s1)) = Inr r"
    by auto
next
  assume h: "(\<forall>k<3. \<forall>q. \<exists>r. send env (length (sent s) + k) q = Inr r \<and> status_code r = 503)
          \<and> (\<forall>q. \<exists>r. send env (length (sent s) + 3) q = Inr r \<and> status_code r = 200)"
  have a3: "\<forall>k<2. \<forall>q. \<exists>r. send env (length (sent s) + k) q = Inr r \<and> retryable r"
  proof (intro allI impI)
    fix k :: nat and q assume "k < 2"
    then have "k < 3" by simp
    with h retryable_503 show "\<exists>r. send env (length (sent s) + k) q = Inr r \<and> retryable r"
      by blast
  qed
  have "(2::nat) < 3" by simp
  with h have two: "\<forall>q. \<exists>r. send env (length (sent s) + 2) q = Inr r \<and> status_code r = 503"
    by blast
  then have a4: "\<forall>q. \<exists>r. send env (length (sent s) + 2) q = Inr r
                   \<and> (retryable r \<longrightarrow> 2 \<le> int 2)"
    by auto
  from data_request_attempts [OF assms _ a3 a4, of rt arg url d rd av]
  obtain r s1 where res: "data_request env rt arg url d rd av 2 s = (Inr r, s1)"
    "length (sent s1) = length (sent s) + 2 + 1"
    "send env (length (sent s) + 2) (last (sent s1)) = Inr r" by auto
  from two obtain r' where "send env (length (sent s) + 2) (last (sent s1)) = Inr r'"
    "status_code r' = 503" by blast
  with res(3) have "status_code r = 503" by simp
  with res show "\<exists>r s1. data_request env rt arg url d rd av 2 s = (Inr r, s1)
                 \<and> status_code r = 503
                 \<and> length (sent s1) = length (sent s) + 3
                 \<and> send env (length (sent s) + 2) (last (sent s1)) = Inr r"
    by auto
qed

theorem data_request_retry_budget_witness:
  "(\<forall>q. send (world flaky) 0 q = Inr (reply 503) \<and> send (world flaky) 1 q = Inr (reply 503)
        \<and> send (world flaky) 2 q = Inr (reply 503) \<and> send (world flaky) 3 q = Inr (reply 200))
   \<and> (\<exists>r s1. data_request (world flaky) ''GET'' None ''/api/curves'' None None None 2
                 fresh_session = (Inr r, s1)
          \<and> retryable r \<and> length (sent s1) = 2 + 1)
   \<and> (\<exists>r s1. data_request (world flaky) ''GET'' None ''/api/curves'' None None None 4
                 fresh_session = (Inr r, s1)
          \<and> status_code r = 200 \<and> length (sent s1) = 4)
   \<and> (\<exists>r s1. data_request (world flaky) ''GET'' None ''/api/curves'' None None None 2
                 fresh_session = (Inr r, s1)
          \<and> status_code r = 503 \<and> length (sent s1) = 3)"
proof -
  have h0: "auth fresh_session = None \<or> auth_never_fails (world flaky)"
    by (simp add: fresh_session_def)
  have h1: "\<forall>k\<le>nat 2. \<forall>q. \<exists>r. send (world flaky) (length (sent fresh_session) + k) q = Inr r
         \<and> retryable r"
    by (simp add: world_def flaky_def reply_def retryable_def fresh_session_def)
  have h2: "\<forall>k<3. \<forall>q. \<exists>r. send (world flaky) (length (sent fresh_session) + k) q = Inr r
         \<and> status_code r = 503"
    by (simp add: world_def flaky_def reply_def fresh_session_def)
  have h3: "\<forall>q. \<exists>r. send (world flaky) (length (sent fresh_session) + 3) q = Inr r
         \<and> status_code r = 200"
    by (simp add: world_def flaky_def reply_def fresh_session_def)
  have len: "length (sent fresh_session) = 0" by (simp add: fresh_session_def)
  have runs: "(\<exists>r s1. data_request (world flaky) ''GET'' None ''/api/curves'' None None None 2
                 fresh_session = (Inr r, s1)
          \<and> retryable r \<and> length (sent s1) = 2 + 1)
   \<and> (\<exists>r s1. data_request (world flaky) ''GET'' None ''/api/curves'' None None None 4
                 fresh_session = (Inr r, s1)
          \<and> status_code r = 200 \<and> length (sent s1) = 4)
   \<and> (\<exists>r s1. data_request (world flaky) ''GET'' None ''/api/curves'' None None None 2
                 fresh_session = (Inr r, s1)
          \<and> status_code r = 503 \<and> length (sent s1) = 3)"
    using h0 h1 h2 h3
      data_request_retry_budget [OF h0, where n = 2 and rt = "''GET''" and arg = None
        and url = "''/api/curves''" and d = None and rd = None and av = None]
    by (auto simp: len eval_nat_numeral)
  have answers: "\<forall>q. send (world flaky) 0 q = Inr (reply 503)
        \<and> send (world flaky) 1 q = Inr (reply 503)
        \<and> send (world flaky) 2 q = Inr (reply 503) \<and> send (world flaky) 3 q = Inr (reply 200)"
    by (simp add: world_def flaky_def)
  from answers runs show ?thesis by blast
qed

text \<open>
  Claim C3. When the answer to the first request has a status that is neither 408 nor
  in [500,600), \<open>data_request\<close> returns that response as it is, and the request is the
  only one sent. Whatever the statuses are, as long as the transport answers and the
  auth provider validates, \<open>data_request\<close> returns a response and raises nothing: the
  status of a response is never turned into an exception.
\<close>

theorem data_request_returns_response:
  "(build_request env rt (effective_urlbase arg s) url d rd av s = Inr (req, s1)
      \<and> send env (length (sent s)) req = Inr res \<and> \<not> retryable res
    \<longrightarrow> data_request env rt arg url d rd av n s = (Inr res, s1\<lparr>sent := sent s @ [req]\<rparr>))
   \<and> ((auth s = None \<or> auth_never_fails env) \<and> (\<forall>k q. \<exists>r. send env k q = Inr r)
    \<longrightarrow> (\<exists>r. fst (data_request env rt arg url d rd av n s) = Inr r))"
proof (intro conjI impI)
  assume h: "build_request env rt (effective_urlbase arg s) url d rd av s = Inr (req, s1)
      \<and> send env (length (sent s)) req = Inr res \<and> \<not> retryable res"
  then have b: "build_request env rt (effective_urlbase arg s) url d rd av s = Inr (req, s1)"
    by simp
  note f = build_request_frame [OF b]
  from h f have r: "send env (length (sent s1)) req = Inr res" by simp
  from h have "\<not> (retryable res \<and> 0 < n)" by simp
  from data_request_final [OF b r this] f
  show "data_request env rt arg url d rd av n s = (Inr res, s1\<lparr>sent := sent s @ [req]\<rparr>)"
    by simp
next
  assume "(auth s = None \<or> auth_never_fails env) \<and> (\<forall>k q. \<exists>r. send env k q = Inr r)"
  then show "\<exists>r. fst (data_request env rt arg url d rd av n s) = Inr r"
    using data_request_returns by blast
qed

theorem data_request_returns_response_witness:
  "build_request (world (\<lambda>k. 404)) ''GET'' (effective_urlbase None fresh_session) ''/api/areas''
       None None None fresh_session = Inr (get_areas, fresh_session)
   \<and> send (world (\<lambda>k. 404)) (length (sent fresh_session)) get_areas = Inr (reply 404)
   \<and> \<not> retryable (reply 404)
   \<and> (auth fresh_session = None \<or> auth_never_fails (world (\<lambda>k. 404)))
   \<and> (\<forall>k q. \<exists>r. send (world (\<lambda>k. 404)) k q = Inr r)
   \<and> data_request (world (\<lambda>k. 404)) ''GET'' None ''/api/areas'' None None None 4 fresh_session
       = (Inr (reply 404), fresh_session\<lparr>sent := [get_areas]\<rparr>)"
proof -
  have h1: "build_request (world (\<lambda>k. 404)) ''GET'' (effective_urlbase None fresh_session)
       ''/api/areas'' None None None fresh_session = Inr (get_areas, fresh_session)"
    by (simp add: build_request_def world_def effective_urlbase_def fresh_session_def
        get_areas_def)
  have h2: "send (world (\<lambda>k. 404)) (length (sent fresh_session)) get_areas = Inr (reply 404)"
    by (simp add: world_def)
  have h3: "\<not> retryable (reply 404)" by (simp add: retryable_def reply_def)
  have h4: "auth fresh_session = None \<or> auth_never_fails (world (\<lambda>k. 404))"
    by (simp add: fresh_session_def)
  have h5: "\<forall>k q. \<exists>r. send (world (\<lambda>k. 404)) k q = Inr r" by (simp add: world_def)
  have e: "sent fresh_session = []" by (simp add: fresh_session_def)
  show ?thesis
    using h1 h2 h3 h4 h5
      data_request_returns_response [where env = "world (\<lambda>k. 404)" and rt = "''GET''"
        and arg = None and s = fresh_session and url = "''/api/areas''" and d = None
        and rd = None and av = None and req = get_areas and ?s1.0 = fresh_session
        and res = "reply 404" and n = 4]
    by (simp add: e)
qed

theorem build_curve_rejects_witness:
  "missing_key meta_keys no_type = Some ''curve_type''
   \<and> build_curve no_type fresh_session =
       (Inl (MetadataException ''Mandatory key curve_type not found in metadata''), fresh_session)
   \<and> missing_key meta_keys odd_type = None
   \<and> map_of odd_type ''id'' = Some (PyStr ''42'') \<and> py_int (PyStr ''42'') = Inr 42
   \<and> map_of odd_type ''curve_type'' = Some (PyStr ''SPLINE'')
   \<and> curve_types_get (PyStr ''SPLINE'') = None
   \<and> build_curve odd_type fresh_session =
       (Inl (CurveException ''Unknown curve type (SPLINE)''), fresh_session)"
proof -
  have h1: "\<exists>k\<in>set meta_keys. map_of no_type k = None"
    by (simp add: no_type_def meta_keys_def)
  have h2: "\<forall>k\<in>set meta_keys. (map_of no_type k = None) = (k = ''curve_type'')"
    by (simp add: no_type_def meta_keys_def)
  have h3: "(\<forall>k\<in>set meta_keys. map_of odd_type k \<noteq> None)
     \<and> map_of odd_type ''id'' = Some (PyStr ''42'') \<and> py_int (PyStr ''42'') = Inr 42
     \<and> map_of odd_type ''curve_type'' = Some (PyStr ''SPLINE'')
     \<and> curve_types_get (PyStr ''SPLINE'') = None"
    by (simp add: odd_type_def eval_defs)
  have h4: "missing_key meta_keys no_type = Some ''curve_type''
     \<and> missing_key meta_keys odd_type = None"
    by (simp add: no_type_def odd_type_def meta_keys_def)
  show ?thesis
    using h1 h2 h3 h4
      build_curve_rejects [where md = no_type and s = fresh_session]
      build_curve_rejects [where md = odd_type and s = fresh_session and idv = "PyStr ''42''"
        and i = 42 and ct = "PyStr ''SPLINE''"]
    by simp
qed

theorem build_curve_bad_id_witness:
  "missing_key meta_keys bad_id = None
   \<and> map_of bad_id ''id'' = Some (PyStr ''abc'') \<and> py_int (PyStr ''abc'') = Inl ValueError
   \<and> build_curve bad_id fresh_session = (Inl ValueError, fresh_session)"
proof -
  have h1: "\<forall>k\<in>set meta_keys. map_of bad_id k \<noteq> None" by (simp add: bad_id_def eval_defs)
  have h2: "map_of bad_id ''id'' = Some (PyStr ''abc'')" by (simp add: bad_id_def)
  have h3: "py_int (PyStr ''abc'') = Inl ValueError" by (simp add: eval_defs)
  have h0: "missing_key meta_keys bad_id = None" by (simp add: bad_id_def meta_keys_def)
  show ?thesis
    using h0 h2 h3 build_curve_bad_id [OF h1 h2 h3, of fresh_session] by simp
qed

lemma build_curve_Inr:
  assumes "build_curve md s = (Inr c, s1)"
  shows "\<exists>i nm. curve_id c = PyInt i \<and> curve_name c = Some nm \<and> map_of md ''name'' = Some nm
           \<and> curve_cache s1 = (curve_cache s)(i \<mapsto> c)
           \<and> name_cache s1 = (name_cache s)(nm \<mapsto> i)"
  using assms
  by (auto simp: build_curve_def Let_def new_curve_def curve_name_def
      split: option.splits sum.splits)

lemma build_curve_frame:
  assumes "build_curve md s = (r, s1)"
  shows "auth s1 = auth s \<and> sent s1 = sent s \<and> urlbase s1 = urlbase s \<and> slept s1 = slept s"
  using assms
  by (auto simp: build_curve_def Let_def split: option.splits sum.splits)

text \<open>
  Claim C7. When the name cache maps a name to an id that the curve cache holds,
  \<open>get_curve\<close> by that name returns the cached curve and leaves the session as it was,
  so nothing is sent; the same holds for \<open>get_curve\<close> by a cached id, and for the
  session that a successful \<open>build_curve\<close> of a curve with that name leaves behind.
\<close>

theorem get_curve_cached:
  "(name_cache s (PyStr n) = Some i \<and> curve_cache s i = Some c
      \<longrightarrow> get_curve env PyNone (PyStr n) s = (Inr c, s))
   \<and> (curve_cache s i = Some c \<longrightarrow> get_curve env (PyInt i) nm s = (Inr c, s))
   \<and> (build_curve md s0 = (Inr c, s) \<and> map_of md ''name'' = Some (PyStr n)
      \<longrightarrow> get_curve env PyNone (PyStr n) s = (Inr c, s))"
proof (intro conjI impI)
  assume "name_cache s (PyStr n) = Some i \<and> curve_cache s i = Some c"
  then show "get_curve env PyNone (PyStr n) s = (Inr c, s)"
    by (simp add: get_curve_def)
next
  assume "curve_cache s i = Some c"
  then show "get_curve env (PyInt i) nm s = (Inr c, s)"
    by (simp add: get_curve_def)
next
  assume h: "build_curve md s0 = (Inr c, s) \<and> map_of md ''name'' = Some (PyStr n)"
  then obtain j where "curve_cache s j = Some c" "name_cache s (PyStr n) = Some j"
    using build_curve_Inr [of md s0 c s] by auto
  then show "get_curve env PyNone (PyStr n) s = (Inr c, s)"
    by (simp add: get_curve_def)
qed

theorem get_curve_cached_witness:
  "build_curve oslo_temp fresh_session
     = (Inr (new_curve TimeSeriesCurve (PyInt 42) (Some oslo_temp)),
        snd (build_curve oslo_temp fresh_session))
   \<and> map_of oslo_temp ''name'' = Some (PyStr ''Oslo Temp'')
   \<and> name_cache (snd (build_curve oslo_temp fresh_session)) (PyStr ''Oslo Temp'') = Some 42
   \<and> curve_cache (snd (build_curve oslo_temp fresh_session)) 42
       = Some (new_curve TimeSeriesCurve (PyInt 42) (Some oslo_temp))
   \<and> get_curve (world flaky) PyNone (PyStr ''Oslo Temp'') (snd (build_curve oslo_temp fresh_session))
       = (Inr (new_curve TimeSeriesCurve (PyInt 42) (Some oslo_temp)),
          snd (build_curve oslo_temp fresh_session))
   \<and> get_curve (world flaky) (PyInt 42) PyNone (snd (build_curve oslo_temp fresh_session))
       = (Inr (new_curve TimeSeriesCurve (PyInt 42) (Some oslo_temp)),
          snd (build_curve oslo_temp fresh_session))"
proof -
  let ?c = "new_curve TimeSeriesCurve (PyInt 42) (Some oslo_temp)"
  let ?s = "snd (build_curve oslo_temp fresh_session)"
  have h1: "build_curve oslo_temp fresh_session = (Inr ?c, ?s)"
    by (simp add: build_curve_def eval_defs)
  have h2: "map_of oslo_temp ''name'' = Some (PyStr ''Oslo Temp'')" by (simp add: oslo_temp_def)
  have h3: "name_cache ?s (PyStr ''Oslo Temp'') = Some 42"
    by (simp add: build_curve_def eval_defs)
  have h4: "curve_cache ?s 42 = Some ?c"
    by (simp add: build_curve_def eval_defs)
  show ?thesis
    using h1 h2 h3 h4
      get_curve_cached [where s = ?s and n = "''Oslo Temp''" and i = 42 and c = ?c
        and env = "world flaky" and nm = PyNone and md = oslo_temp and ?s0.0 = fresh_session]
    by simp
qed

lemma effective_urlbase_again:
  "urlbase s1 = urlbase s \<Longrightarrow>
   effective_urlbase (Some (effective_urlbase arg s)) s1 = effective_urlbase arg s"
  by (simp add: effective_urlbase_def split: option.splits)

lemma data_request_frame:
  assumes "data_request env rt arg url d rd av n s = (r, s')"
  shows "curve_cache s' = curve_cache s \<and> name_cache s' = name_cache s
         \<and> urlbase s' = urlbase s \<and> (auth s' = None) = (auth s = None)
         \<and> (\<exists>reqs. sent s' = sent s @ reqs
               \<and> (\<forall>q\<in>set reqs. req_url q = urljoin env (effective_urlbase arg s) url
                      \<and> req_method q = rt)
               \<and> (auth s = None \<or> auth_never_fails env \<longrightarrow> reqs \<noteq> []))"
  using assms
proof (induction env rt arg url d rd av n s arbitrary: r s' rule: data_request.induct)
  case (1 env rt arg url d rd av n s)
  let ?ub = "effective_urlbase arg s"
  show ?case
  proof (cases "build_request env rt ?ub url d rd av s")
    case (Inl e)
    then have "data_request env rt arg url d rd av n s = (Inl e, s)"
      by (subst data_request.simps) (simp add: Let_def)
    moreover have "\<not> (auth s = None \<or> auth_never_fails env)"
    proof
      assume "auth s = None \<or> auth_never_fails env"
      from build_request_ok [OF this, of rt ?ub url d rd av] Inl show False by simp
    qed
    ultimately show ?thesis using "1.prems" by auto
  next
    case (Inr p)
    obtain req s1 where p: "p = (req, s1)" by (cases p)
    have b: "build_request env rt ?ub url d rd av s = Inr (req, s1)"
      using Inr p by simp
    note f = build_request_frame [OF b]
    let ?s2 = "s1\<lparr>sent := sent s1 @ [req]\<rparr>"
    show ?thesis
    proof (cases "send env (length (sent s1)) req")
      case (Inl e)
      then have "data_request env rt arg url d rd av n s = (Inl e, ?s2)"
        by (subst data_request.simps) (simp add: b Let_def)
      with "1.prems" have "s' = ?s2" by simp
      then show ?thesis using f by simp
    next
      case (Inr res)
      show ?thesis
      proof (cases "retryable res \<and> 0 < n")
        case False
        from data_request_final [OF b Inr False] "1.prems" have "s' = ?s2" by simp
        then show ?thesis using f by simp
      next
        case True
        let ?s3 = "if 0 < RETRY_DELAY then ?s2\<lparr>slept := slept ?s2 + RETRY_DELAY\<rparr> else ?s2"
        have "data_request env rt arg url d rd av n s =
              data_request env rt (Some ?ub) url d rd av (n - 1) ?s3"
          using data_request_retry [OF b Inr] True by (simp add: RETRY_DELAY_def)
        with "1.prems" have "data_request env rt (Some ?ub) url d rd av (n - 1) ?s3 = (r, s')"
          by simp
        from "1.IH" [OF refl b refl refl Inr True this]
        obtain reqs where ih: "curve_cache s' = curve_cache ?s3" "name_cache s' = name_cache ?s3"
          "urlbase s' = urlbase ?s3" "(auth s' = None) = (auth ?s3 = None)"
          "sent s' = sent ?s3 @ reqs"
          "\<forall>q\<in>set reqs. req_url q = urljoin env (effective_urlbase (Some ?ub) ?s3) url
                      \<and> req_method q = rt"
          by (elim conjE exE) (rule that; assumption)
        have u: "effective_urlbase (Some ?ub) ?s3 = ?ub"
          using f by (intro effective_urlbase_again) simp
        have "sent s' = sent s @ (req # reqs)" using ih(5) f by simp
        moreover have "\<forall>q\<in>set (req # reqs). req_url q = urljoin env ?ub url \<and> req_method q = rt"
          using ih(6) u f by simp
        ultimately have "\<exists>reqs. sent s' = sent s @ reqs
               \<and> (\<forall>q\<in>set reqs. req_url q = urljoin env ?ub url \<and> req_method q = rt)
               \<and> (auth s = None \<or> auth_never_fails env \<longrightarrow> reqs \<noteq> [])"
          by blast
        then show ?thesis using ih(1-4) f by simp
      qed
    qed
  qed
qed

lemma build_curve_consistent:
  assumes "build_curve md s = (r, s1)" and "cache_consistent s"
  shows "cache_consistent s1"
  using assms
  by (auto simp: build_curve_def cache_consistent_def Let_def
      split: option.splits sum.splits if_splits)

lemma build_curves_frame:
  assumes "build_curves mds acc s = (r, s1)"
  shows "auth s1 = auth s \<and> sent s1 = sent s \<and> urlbase s1 = urlbase s
         \<and> (cache_consistent s \<longrightarrow> cache_consistent s1)"
  using assms
proof (induction mds arbitrary: acc s)
  case Nil
  then show ?case by simp
next
  case (Cons md mds)
  obtain r0 s0 where b: "build_curve md s = (r0, s0)" by (cases "build_curve md s")
  note f = build_curve_frame [OF b] build_curve_consistent [OF b]
  show ?case
  proof (cases r0)
    case (Inl e)
    with Cons.prems b have "s1 = s0" by simp
    with f show ?thesis by simp
  next
    case (Inr c)
    with Cons.prems b have "build_curves mds (acc @ [c]) s0 = (r, s1)" by simp
    from Cons.IH [OF this] f show ?thesis by simp
  qed
qed

lemma handle_single_frame:
  assumes "handle_single_curve_response res s = (r, s1)"
  shows "auth s1 = auth s \<and> sent s1 = sent s \<and> urlbase s1 = urlbase s
         \<and> (cache_consistent s \<longrightarrow> cache_consistent s1)"
  using assms build_curve_frame build_curve_consistent
  by (auto simp: handle_single_curve_response_def split: if_splits option.splits json_value.splits)

lemma handle_multi_frame:
  assumes "handle_multi_curve_response res s = (r, s1)"
  shows "auth s1 = auth s \<and> sent s1 = sent s \<and> urlbase s1 = urlbase s
         \<and> (cache_consistent s \<longrightarrow> cache_consistent s1)"
  using assms build_curves_frame
  by (auto simp: handle_multi_curve_response_def
      split: if_splits option.splits json_value.splits list.splits)

lemma consistent_caches:
  "curve_cache s1 = curve_cache s \<Longrightarrow> name_cache s1 = name_cache s \<Longrightarrow>
   cache_consistent s1 = cache_consistent s"
  by (simp add: cache_consistent_def)

lemma data_request_keeps:
  assumes "data_request env rt arg url d rd av n s = (r, s1)"
  shows "(auth s1 = None) = (auth s = None) \<and> cache_consistent s1 = cache_consistent s"
proof -
  note f = data_request_frame [OF assms]
  from f have "cache_consistent s1 = cache_consistent s"
    by (intro consistent_caches) simp_all
  with f show ?thesis by simp
qed

lemma get_curve_frame:
  assumes "get_curve env i n s = (r, s1)"
  shows "(auth s1 = None) = (auth s = None) \<and> (cache_consistent s \<longrightarrow> cache_consistent s1)"
  using assms
  by (auto simp: get_curve_def Let_def
      split: if_splits option.splits prod.splits sum.splits
      dest!: data_request_keeps handle_single_frame)

lemma search_frame:
  assumes "search env kwargs s = (r, s1)"
  shows "(auth s1 = None) = (auth s = None) \<and> (cache_consistent s \<longrightarrow> cache_consistent s1)"
  using assms
  by (auto simp: search_def Let_def
      split: if_splits option.splits prod.splits sum.splits
      dest!: data_request_keeps handle_multi_frame)

lemma get_attribute_frame:
  assumes "get_attribute env a s = (r, s1)"
  shows "(auth s1 = None) = (auth s = None) \<and> (cache_consistent s \<longrightarrow> cache_consistent s1)"
  using assms
  by (auto simp: get_attribute_def
      split: if_splits option.splits prod.splits sum.splits
      dest!: data_request_keeps)

lemma make_curve_frame: "snd (make_curve i t s) = s"
  by (simp add: make_curve_def split: option.splits)

lemma read_config_file_frame:
  assumes "read_config_file cf s = (r, s1)"
  shows "curve_cache s1 = curve_cache s \<and> name_cache s1 = name_cache s
         \<and> (auth s \<noteq> None \<longrightarrow> s1 = s)"
  using assms
  by (auto simp: read_config_file_def Let_def
      split: if_splits config_file.splits sum.splits)

lemma configure_frame:
  assumes "configure cid secret aub s = (r, s1)"
  shows "curve_cache s1 = curve_cache s \<and> name_cache s1 = name_cache s
         \<and> (auth s \<noteq> None \<longrightarrow> s1 = s)"
  using assms
  by (auto simp: configure_def Let_def split: if_splits)

lemma perform_keeps:
  "(auth s \<noteq> None \<longrightarrow> auth (perform env op s) \<noteq> None)
   \<and> (cache_consistent s \<longrightarrow> cache_consistent (perform env op s))"
proof (cases op)
  case (ReadConfigFile cf)
  note f = read_config_file_frame [OF prod.collapse [symmetric], where cf = cf and s = s]
  from f have "cache_consistent (snd (read_config_file cf s)) = cache_consistent s"
    by (intro consistent_caches) simp_all
  with f ReadConfigFile show ?thesis by auto
next
  case (Configure cid secret aub)
  note f = configure_frame [OF prod.collapse [symmetric], where cid = cid and secret = secret and aub = aub and s = s]
  from f have "cache_consistent (snd (configure cid secret aub s)) = cache_consistent s"
    by (intro consistent_caches) simp_all
  with f Configure show ?thesis by auto
next
  case (GetCurve i n)
  with get_curve_frame [OF prod.collapse [symmetric], where env = env and i = i and n = n and s = s]
  show ?thesis by simp
next
  case (Search kwargs)
  with search_frame [OF prod.collapse [symmetric], where env = env and kwargs = kwargs and s = s]
  show ?thesis by simp
next
  case (MakeCurve i t)
  then show ?thesis by (simp add: make_curve_frame)
next
  case (GetAttribute a)
  with get_attribute_frame [OF prod.collapse [symmetric], where env = env and a = a and s = s]
  show ?thesis by simp
next
  case (BuildCurve md)
  with build_curve_frame [OF prod.collapse [symmetric], where md = md and s = s]
    build_curve_consistent [OF prod.collapse [symmetric], where md = md and s = s]
  show ?thesis by simp
next
  case (DataRequest rt ub url d rd av n)
  with data_request_keeps [OF prod.collapse [symmetric], where env = env and rt = rt and arg = ub and url = url and d = d and rd = rd and av = av and n = n and s = s]
  show ?thesis by simp
next
  case (HandleSingle res)
  with handle_single_frame [OF prod.collapse [symmetric], where res = res and s = s]
  show ?thesis by simp
next
  case (HandleMulti res)
  with handle_multi_frame [OF prod.collapse [symmetric], where res = res and s = s]
  show ?thesis by simp
qed

lemma run_starts: "\<exists>rest. run env ops s = s # rest"
  by (cases ops) simp_all

lemma times_set_step:
  "times_set (x # y # xs) = (if x = None \<and> y \<noteq> None then 1 else 0) + times_set (y # xs)"
  by (cases x; cases y) simp_all

lemma run_consistent:
  "cache_consistent s \<Longrightarrow> s1 \<in> set (run env ops s) \<Longrightarrow> cache_consistent s1"
proof (induction ops arbitrary: s)
  case Nil
  then show ?case by simp
next
  case (Cons op ops)
  from Cons.prems(2) have "s1 = s \<or> s1 \<in> set (run env ops (perform env op s))" by simp
  then show ?case
  proof
    assume "s1 = s"
    with Cons.prems(1) show ?thesis by simp
  next
    assume m: "s1 \<in> set (run env ops (perform env op s))"
    from Cons.prems(1) have "cache_consistent (perform env op s)"
      using perform_keeps by blast
    from Cons.IH [OF this m] show ?thesis .
  qed
qed

lemma run_configured:
  "auth s \<noteq> None \<Longrightarrow> s1 \<in> set (run env ops s) \<Longrightarrow> auth s1 \<noteq> None"
proof (induction ops arbitrary: s)
  case Nil
  then show ?case by simp
next
  case (Cons op ops)
  from Cons.prems(2) have "s1 = s \<or> s1 \<in> set (run env ops (perform env op s))" by simp
  then show ?case
  proof
    assume "s1 = s"
    with Cons.prems(1) show ?thesis by simp
  next
    assume m: "s1 \<in> set (run env ops (perform env op s))"
    from Cons.prems(1) have "auth (perform env op s) \<noteq> None"
      using perform_keeps by blast
    from Cons.IH [OF this m] show ?thesis .
  qed
qed

lemma run_configured_no_set:
  "auth s \<noteq> None \<Longrightarrow> times_set (map auth (run env ops s)) = 0"
proof (induction ops arbitrary: s)
  case Nil
  show ?case by simp
next
  case (Cons op ops)
  let ?s = "perform env op s"
  obtain rest where r: "run env ops ?s = ?s # rest" using run_starts by blast
  from Cons.prems have a: "auth ?s \<noteq> None" using perform_keeps by blast
  have "times_set (map auth (run env (op # ops) s)) =
      (if auth s = None \<and> auth ?s \<noteq> None then 1 else 0) + times_set (map auth (?s # rest))"
    unfolding run.simps r list.map by (rule times_set_step)
  also have "\<dots> = times_set (map auth (run env ops ?s))"
    using Cons.prems by (simp only: r if_False simp_thms add_0)
  also have "\<dots> = 0" by (rule Cons.IH [OF a])
  finally show ?case .
qed

lemma times_set_run: "times_set (map auth (run env ops s)) \<le> 1"
proof (induction ops arbitrary: s)
  case Nil
  show ?case by simp
next
  case (Cons op ops)
  let ?s = "perform env op s"
  obtain rest where r: "run env ops ?s = ?s # rest" using run_starts by blast
  have step: "times_set (map auth (run env (op # ops) s)) =
      (if auth s = None \<and> auth ?s \<noteq> None then 1 else 0) + times_set (map auth (?s # rest))"
    unfolding run.simps r list.map by (rule times_set_step)
  show ?case
  proof (cases "auth ?s = None")
    case True
    then have "times_set (map auth (run env (op # ops) s)) = times_set (map auth (?s # rest))"
      unfolding step by simp
    with Cons.IH [of ?s] show ?thesis by (simp only: r)
  next
    case False
    from run_configured_no_set [OF False, of env ops]
    have "times_set (map auth (?s # rest)) = 0" by (simp only: r)
    then show ?thesis unfolding step by simp
  qed
qed

text \<open>
  Claim C1. In every session that a sequence of calls reaches from a session whose
  \<open>auth\<close> is set, \<open>read_config_file\<close> (of any source) and \<open>configure\<close> (with any
  arguments) raise \<open>ConfigException\<close> and leave the session as it was. Along any
  sequence of calls from any session, \<open>auth\<close> goes from absent to present at most once.
\<close>

theorem configure_once:
  "(auth s \<noteq> None \<longrightarrow>
      (\<forall>s1\<in>set (run env ops s).
         (\<forall>cf. read_config_file cf s1 =
                 (Inl (ConfigException ''Session configuration is already done''), s1))
         \<and> (\<forall>cid secret aub. configure cid secret aub s1 =
                 (Inl (ConfigException ''Session configuration is already done''), s1))))
   \<and> times_set (map auth (run env ops s)) \<le> 1"
proof (intro conjI)
  show "auth s \<noteq> None \<longrightarrow>
      (\<forall>s1\<in>set (run env ops s).
         (\<forall>cf. read_config_file cf s1 =
                 (Inl (ConfigException ''Session configuration is already done''), s1))
         \<and> (\<forall>cid secret aub. configure cid secret aub s1 =
                 (Inl (ConfigException ''Session configuration is already done''), s1)))"
  proof (intro impI ballI)
    fix s1 assume "auth s \<noteq> None" and "s1 \<in> set (run env ops s)"
    then have "auth s1 \<noteq> None" by (rule run_configured)
    then show "(\<forall>cf. read_config_file cf s1 =
                 (Inl (ConfigException ''Session configuration is already done''), s1))
         \<and> (\<forall>cid secret aub. configure cid secret aub s1 =
                 (Inl (ConfigException ''Session configuration is already done''), s1))"
      by (simp add: read_config_file_def configure_def)
  qed
next
  show "times_set (map auth (run env ops s)) \<le> 1" by (rule times_set_run)
qed

text \<open>
  Claim C9. A fresh session is cache-consistent, every call keeps a cache-consistent
  session cache-consistent (whether it returns or raises), hence so does every sequence
  of calls; and right after \<open>build_curve\<close> has inserted a curve, the name cache maps
  the curve's name to an id at which the curve cache holds that very curve.
\<close>

theorem cache_consistency:
  "cache_consistent fresh_session
   \<and> (cache_consistent s \<longrightarrow> cache_consistent (perform env op s))
   \<and> (cache_consistent s \<longrightarrow> (\<forall>s1\<in>set (run env ops s). cache_consistent s1))
   \<and> (build_curve md s = (Inr c, s1) \<longrightarrow>
        (\<exists>i nm. curve_name c = Some nm \<and> name_cache s1 nm = Some i
                 \<and> curve_cache s1 i = Some c))"
proof (intro conjI impI)
  show "cache_consistent fresh_session"
    by (simp add: cache_consistent_def fresh_session_def)
next
  assume "cache_consistent s"
  then show "cache_consistent (perform env op s)" using perform_keeps by blast
next
  assume "cache_consistent s"
  then show "\<forall>s1\<in>set (run env ops s). cache_consistent s1"
    using run_consistent by blast
next
  assume "build_curve md s = (Inr c, s1)"
  from build_curve_Inr [OF this]
  show "\<exists>i nm. curve_name c = Some nm \<and> name_cache s1 nm = Some i \<and> curve_cache s1 i = Some c"
    by auto
qed

lemma config_get_error: "config_get config section option = Inl e \<Longrightarrow> \<not> is_ConfigException e"
  by (auto simp: config_get_def split: option.splits if_splits)

text \<open>
  Where the \<^verbatim>\<open>common\<close> section gives a urlbase as well as an auth type other than
  \<^verbatim>\<open>OAuth\<close>: on a session without \<open>auth\<close>, \<open>read_config_file\<close> returns normally, sets
  the urlbase of the session to the one of the file and leaves \<open>auth\<close> absent; a
  following \<open>configure\<close> succeeds and sets \<open>auth\<close>, and a following \<open>read_config_file\<close> of
  any source does not raise \<open>ConfigException\<close>.
\<close>

lemma read_config_file_other_auth:
  assumes "auth s = None"
    and "config_get config ''common'' ''urlbase'' = Inr ub"
    and "config_get config ''common'' ''auth_type'' = Inr auth_type"
    and "auth_type \<noteq> ''OAuth''"
  shows "read_config_file (Parsed config) s = (Inr (), s\<lparr>urlbase := ub\<rparr>)
         \<and> auth (s\<lparr>urlbase := ub\<rparr>) = None
         \<and> configure cid secret aub (s\<lparr>urlbase := ub\<rparr>) =
             (Inr (), s\<lparr>urlbase := ub,
                        auth := Some (OAuth cid secret
                          (case aub of None \<Rightarrow> ''https://auth.wattsight.com/'' | Some u \<Rightarrow> u))\<rparr>)
         \<and> (\<forall>cf. \<not> (case fst (read_config_file cf (s\<lparr>urlbase := ub\<rparr>)) of
                      Inl e \<Rightarrow> is_ConfigException e | Inr u \<Rightarrow> False))"
proof -
  have "read_config_file (Parsed config) s = (Inr (), s\<lparr>urlbase := ub\<rparr>)"
    using assms by (simp add: read_config_file_def)
  moreover have "configure cid secret aub (s\<lparr>urlbase := ub\<rparr>) =
             (Inr (), s\<lparr>urlbase := ub,
                        auth := Some (OAuth cid secret
                          (case aub of None \<Rightarrow> ''https://auth.wattsight.com/'' | Some u \<Rightarrow> u))\<rparr>)"
    using assms(1) by (simp add: configure_def)
  moreover have "\<not> (case fst (read_config_file cf (s\<lparr>urlbase := ub\<rparr>)) of
                      Inl e \<Rightarrow> is_ConfigException e | Inr u \<Rightarrow> False)" for cf
    using assms(1) config_get_error
    by (auto simp: read_config_file_def Let_def split: config_file.splits sum.splits)
  ultimately show ?thesis using assms(1) by simp
qed

lemma search_args_spec:
  "\<forall>kv\<in>set kwargs. fst kv \<in> set search_terms \<Longrightarrow>
   search_args kwargs args = Inr (args @ concat (map spec_pairs kwargs))"
proof (induction kwargs arbitrary: args)
  case Nil
  show ?case by simp
next
  case (Cons kv kwargs)
  obtain key val where kv: "kv = (key, val)" by (cases kv)
  from Cons.prems have k: "key \<in> set search_terms"
    and rest: "\<forall>kv\<in>set kwargs. fst kv \<in> set search_terms"
    by (simp_all add: kv)
  show ?case
    using k Cons.IH [OF rest] by (cases val) (simp_all add: kv)
qed

lemma search_args_illegal:
  "\<exists>kv\<in>set kwargs. fst kv \<notin> set search_terms \<Longrightarrow>
   \<exists>key. key \<in> fst ` set kwargs \<and> key \<notin> set search_terms
     \<and> search_args kwargs args = Inl (MetadataException (''Illegal search parameter '' @ key))"
proof (induction kwargs arbitrary: args)
  case Nil
  then show ?case by simp
next
  case (Cons kv kwargs)
  obtain key val where kv: "kv = (key, val)" by (cases kv)
  show ?case
  proof (cases "key \<in> set search_terms")
    case False
    then have "search_args (kv # kwargs) args =
        Inl (MetadataException (''Illegal search parameter '' @ key))"
      by (simp add: kv)
    with False show ?thesis by (auto simp: kv)
  next
    case True
    with Cons.prems have "\<exists>kv\<in>set kwargs. fst kv \<notin> set search_terms" by (auto simp: kv)
    from Cons.IH [OF this] True show ?thesis
      by (cases val) (auto simp: kv)
  qed
qed

lemma search_sent:
  assumes "search_args kwargs [] = Inr args"
    and "astr = (if length args \<noteq> 0 then ''?'' @ join ''&'' args else [])"
  shows "\<exists>reqs. sent (snd (search env kwargs s)) = sent s @ reqs
           \<and> (\<forall>q\<in>set reqs. req_method q = ''GET''
                 \<and> req_url q = urljoin env (urlbase s) (''/api/curves'' @ astr))
           \<and> (auth s = None \<or> auth_never_fails env \<longrightarrow> reqs \<noteq> [])"
proof -
  let ?url = "''/api/curves'' @ astr"
  have s_eq: "search env kwargs s =
      (case data_request env ''GET'' (Some (urlbase s)) ?url None None None RETRY_COUNT s of
         (Inl e, s1) \<Rightarrow> (Inl e, s1)
       | (Inr response, s1) \<Rightarrow> handle_multi_curve_response response s1)"
    unfolding search_def assms(1) sum.case Let_def assms(2) [symmetric] by (rule refl)
  obtain r0 s0 where dr: "data_request env ''GET'' (Some (urlbase s)) ?url None None None
      RETRY_COUNT s = (r0, s0)"
    by (cases "data_request env ''GET'' (Some (urlbase s)) ?url None None None RETRY_COUNT s")
  have e: "effective_urlbase (Some (urlbase s)) s = urlbase s"
    by (simp add: effective_urlbase_def)
  note f = data_request_frame [OF dr, unfolded e]
  have "sent (snd (search env kwargs s)) = sent s0"
  proof (cases r0)
    case (Inl err)
    with dr show ?thesis unfolding s_eq by simp
  next
    case (Inr res)
    with dr have "search env kwargs s = handle_multi_curve_response res s0"
      unfolding s_eq by simp
    with handle_multi_frame [OF prod.collapse [symmetric], where res = res and s = s0]
    show ?thesis by simp
  qed
  with f show ?thesis by auto
qed

text \<open>
  Claim C8. When every criterion key is in the allow-list, the loop of \<open>search\<close>
  collects the pairs the specification describes (one per element of an iterable value,
  in order; one for a scalar), and every request the search sends is a GET of
  \<^verbatim>\<open>/api/curves\<close> followed by \<^verbatim>\<open>?\<close> and the pairs joined with \<^verbatim>\<open>&\<close> (nothing follows
  when there is no pair). The search of scenario 4 sends one request, with the query
  string \<^verbatim>\<open>area=NO&area=SE\<close>. When some key is outside the allow-list, \<open>search\<close>
  raises a \<open>MetadataException\<close> naming such a key and returns the session as it was,
  so nothing is sent.
\<close>

theorem search_query:
  "((\<forall>kv\<in>set kwargs. fst kv \<in> set search_terms) \<longrightarrow>
      search_args kwargs [] = Inr (concat (map spec_pairs kwargs))
      \<and> (\<exists>reqs. sent (snd (search env kwargs s)) = sent s @ reqs
            \<and> (\<forall>q\<in>set reqs. req_method q = ''GET''
                  \<and> req_url q = urljoin env (urlbase s)
                      (''/api/curves'' @ (if concat (map spec_pairs kwargs) = [] then []
                                          else ''?'' @ spec_query kwargs)))
            \<and> (auth s = None \<or> auth_never_fails env \<longrightarrow> reqs \<noteq> [])))
   \<and> sent (snd (search (world (\<lambda>k. 200)) area_search fresh_session)) = [area_request]
   \<and> ((\<exists>kv\<in>set kwargs. fst kv \<notin> set search_terms) \<longrightarrow>
        (\<exists>key. key \<in> fst ` set kwargs \<and> key \<notin> set search_terms
           \<and> search env kwargs s =
               (Inl (MetadataException (''Illegal search parameter '' @ key)), s)))"
proof (intro conjI impI)
  assume "\<forall>kv\<in>set kwargs. fst kv \<in> set search_terms"
  from search_args_spec [OF this, of "[]"]
  show "search_args kwargs [] = Inr (concat (map spec_pairs kwargs))" by simp
next
  assume "\<forall>kv\<in>set kwargs. fst kv \<in> set search_terms"
  from search_args_spec [OF this, of "[]"]
  have "search_args kwargs [] = Inr (concat (map spec_pairs kwargs))" by simp
  moreover have "(if concat (map spec_pairs kwargs) = [] then [] else ''?'' @ spec_query kwargs)
      = (if length (concat (map spec_pairs kwargs)) \<noteq> 0
         then ''?'' @ join ''&'' (concat (map spec_pairs kwargs)) else [])"
    by (simp add: spec_query_def)
  ultimately show "\<exists>reqs. sent (snd (search env kwargs s)) = sent s @ reqs
            \<and> (\<forall>q\<in>set reqs. req_method q = ''GET''
                  \<and> req_url q = urljoin env (urlbase s)
                      (''/api/curves'' @ (if concat (map spec_pairs kwargs) = [] then []
                                          else ''?'' @ spec_query kwargs)))
            \<and> (auth s = None \<or> auth_never_fails env \<longrightarrow> reqs \<noteq> [])"
    by (rule search_sent)
next
  let ?env = "world (\<lambda>k. 200)"
  have args: "search_args area_search [] = Inr [''area=NO'', ''area=SE'']"
    by (simp add: area_search_def search_terms_def)
  have b: "build_request ?env ''GET'' (effective_urlbase (Some (urlbase fresh_session)) fresh_session)
      ''/api/curves?area=NO&area=SE'' None None None fresh_session
      = Inr (area_request, fresh_session)"
    by (simp add: build_request_def world_def effective_urlbase_def fresh_session_def
        area_request_def)
  have r: "send ?env (length (sent fresh_session)) area_request = Inr (reply 200)"
    by (simp add: world_def)
  have n: "\<not> (retryable (reply 200) \<and> 0 < RETRY_COUNT)"
    by (simp add: retryable_def reply_def)
  have dr: "data_request ?env ''GET'' (Some (urlbase fresh_session))
      ''/api/curves?area=NO&area=SE'' None None None RETRY_COUNT fresh_session
      = (Inr (reply 200), fresh_session\<lparr>sent := sent fresh_session @ [area_request]\<rparr>)"
    by (rule data_request_final [OF b r n])
  have h: "handle_multi_curve_response (reply 200) s1 = (Inr [], s1)" for s1
    by (simp add: handle_multi_curve_response_def ok_def reply_def)
  show "sent (snd (search ?env area_search fresh_session)) = [area_request]"
    by (simp add: search_def args dr h) (simp add: fresh_session_def)
next
  assume "\<exists>kv\<in>set kwargs. fst kv \<notin> set search_terms"
  from search_args_illegal [OF this, of "[]"]
  obtain key where "key \<in> fst ` set kwargs" "key \<notin> set search_terms"
    "search_args kwargs [] = Inl (MetadataException (''Illegal search parameter '' @ key))"
    by blast
  then show "\<exists>key. key \<in> fst ` set kwargs \<and> key \<notin> set search_terms
           \<and> search env kwargs s =
               (Inl (MetadataException (''Illegal search parameter '' @ key)), s)"
    by (auto simp: search_def)
qed

theorem search_query_witness:
  "search_args area_search [] = Inr [''area=NO'', ''area=SE'']
   \<and> spec_query area_search = ''area=NO&area=SE''
   \<and> sent (snd (search (world (\<lambda>k. 200)) area_search fresh_session)) = [area_request]
   \<and> search (world (\<lambda>k. 200)) foo_search fresh_session =
       (Inl (MetadataException ''Illegal search parameter foo''), fresh_session)"
proof -
  have h1: "\<forall>kv\<in>set area_search. fst kv \<in> set search_terms"
    by (simp add: area_search_def search_terms_def)
  have h2: "\<exists>kv\<in>set foo_search. fst kv \<notin> set search_terms"
    by (simp add: foo_search_def search_terms_def)
  have q: "spec_query area_search = ''area=NO&area=SE''"
    by (simp add: spec_query_def area_search_def)
  have p: "concat (map spec_pairs area_search) = [''area=NO'', ''area=SE'']"
    by (simp add: area_search_def)
  have k: "fst ` set foo_search = {''foo''}" by (simp add: foo_search_def)
  show ?thesis
    using h1 h2 q
      search_query [where kwargs = area_search and env = "world (\<lambda>k. 200)" and s = fresh_session]
      search_query [where kwargs = foo_search and env = "world (\<lambda>k. 200)" and s = fresh_session]
    by (simp add: p k)
qed

theorem configure_once_witness:
  "auth configured \<noteq> None
   \<and> read_config_file (Parsed basic_config) configured =
       (Inl (ConfigException ''Session configuration is already done''), configured)
   \<and> configure ''you'' ''other'' None configured =
       (Inl (ConfigException ''Session configuration is already done''), configured)
   \<and> times_set (map auth (run (world flaky)
         [Configure ''me'' ''secret'' None, ReadConfigFile (Parsed basic_config)] fresh_session)) \<le> 1"
proof -
  have h: "auth configured \<noteq> None"
    by (simp add: configured_def configure_def fresh_session_def)
  show ?thesis
    using h
      configure_once [where s = configured and env = "world flaky" and ops = "[]"]
      configure_once [where s = fresh_session and env = "world flaky"
        and ops = "[Configure ''me'' ''secret'' None, ReadConfigFile (Parsed basic_config)]"]
    by simp
qed

theorem cache_consistency_witness:
  "cache_consistent fresh_session
   \<and> cache_consistent (perform (world flaky) (BuildCurve oslo_temp) fresh_session)
   \<and> build_curve oslo_temp fresh_session =
       (Inr (new_curve TimeSeriesCurve (PyInt 42) (Some oslo_temp)),
        snd (build_curve oslo_temp fresh_session))
   \<and> (\<exists>i nm. curve_name (new_curve TimeSeriesCurve (PyInt 42) (Some oslo_temp)) = Some nm
         \<and> name_cache (snd (build_curve oslo_temp fresh_session)) nm = Some i
         \<and> curve_cache (snd (build_curve oslo_temp fresh_session)) i
             = Some (new_curve TimeSeriesCurve (PyInt 42) (Some oslo_temp)))"
proof -
  let ?c = "new_curve TimeSeriesCurve (PyInt 42) (Some oslo_temp)"
  let ?s = "snd (build_curve oslo_temp fresh_session)"
  have h0: "cache_consistent fresh_session"
    by (simp add: cache_consistent_def fresh_session_def)
  have h1: "build_curve oslo_temp fresh_session = (Inr ?c, ?s)"
    by (simp add: build_curve_def eval_defs)
  show ?thesis
    using h0 h1
      cache_consistency [where s = fresh_session and env = "world flaky"
        and op = "BuildCurve oslo_temp" and ops = "[BuildCurve oslo_temp]"
        and md = oslo_temp and c = ?c and ?s1.0 = ?s]
    by simp
qed

lemma read_config_file_other_auth_example:
  "auth fresh_session = None
   \<and> config_get basic_config ''common'' ''urlbase'' = Inr ''https://test.example''
   \<and> config_get basic_config ''common'' ''auth_type'' = Inr ''Basic''
   \<and> ''Basic'' \<noteq> ''OAuth''
   \<and> read_config_file (Parsed basic_config) fresh_session =
       (Inr (), fresh_session\<lparr>urlbase := ''https://test.example''\<rparr>)
   \<and> fst (configure ''me'' ''secret'' None (fresh_session\<lparr>urlbase := ''https://test.example''\<rparr>))
       = Inr ()"
proof -
  have h1: "auth fresh_session = None" by (simp add: fresh_session_def)
  have h2: "config_get basic_config ''common'' ''urlbase'' = Inr ''https://test.example''"
    by (simp add: config_get_def basic_config_def)
  have h3: "config_get basic_config ''common'' ''auth_type'' = Inr ''Basic''"
    by (simp add: config_get_def basic_config_def)
  have h4: "''Basic'' \<noteq> ''OAuth''" by simp
  show ?thesis
    using h1 h2 h3
      read_config_file_other_auth [OF h1 h2 h3 h4, where cid = "''me''" and secret = "''secret''"
        and aub = None]
    by simp
qed

text \<open>
  Claim C10. The claim: for every configuration whose \<^verbatim>\<open>common\<close> section has an auth
  type other than \<^verbatim>\<open>OAuth\<close>, \<open>read_config_file\<close> returns without setting \<open>auth\<close>. The
  code breaks it on a configuration that has such an auth type and no urlbase. Line 55
  hands the parser a default meant for the urlbase and line 62 allows for a urlbase that
  is absent, but the default is bound to the option \<^verbatim>\<open>common\<close>, so for the option
  \<^verbatim>\<open>urlbase\<close> the call of \<^verbatim>\<open>config.get\<close> at line 61 finds nothing. On the fresh session
  and the configuration whose only section is \<^verbatim>\<open>common\<close> with \<^verbatim>\<open>auth_type = Basic\<close>,
  \<open>read_config_file\<close> does not return: it raises \<open>NoOptionError\<close> for the urlbase.
\<close>

theorem read_config_file_without_urlbase:
  "auth fresh_session = None
   \<and> config_get no_urlbase_config ''common'' ''auth_type'' = Inr ''Basic''
   \<and> ''Basic'' \<noteq> ''OAuth''
   \<and> config_get no_urlbase_config ''common'' ''urlbase'' = Inl (NoOptionError ''urlbase'' ''common'')
   \<and> read_config_file (Parsed no_urlbase_config) fresh_session =
       (Inl (NoOptionError ''urlbase'' ''common''), fresh_session)"
  by (simp add: read_config_file_def config_get_def no_urlbase_config_def fresh_session_def)

end
